theory Spec2Isabelle
  imports Complex_Main "HOL-Library.Multiset"
begin

section \<open>JavaScript values and the string operations the resolution code uses\<close>

text \<open>
  The participant-name resolution logic is written in JavaScript over loosely typed
  Firestore documents. A field such as \<open>participantNames\<close> can hold an array, a string,
  or nothing; the model keeps that as a datatype of JavaScript values. \<open>JObj\<close> stands
  for any other object (neither array nor \<open>null\<close>).

  Strings are lists of 8-bit characters, read as the code points below 256.
  Whitespace is the set of those code points that \<open>String.prototype.trim\<close> removes.
\<close>

datatype jsval =
    JUndefined
  | JNull
  | JBool bool
  | JNum rat
  | JStr string
  | JArr "jsval list"
  | JObj

text \<open>Truthiness, as used by \<open>if (x)\<close>, \<open>!x\<close>, \<open>x && y\<close> and \<open>x || y\<close>.\<close>

fun truthy :: "jsval \<Rightarrow> bool" where
  "truthy JUndefined = False"
| "truthy JNull = False"
| "truthy (JBool b) = b"
| "truthy (JNum n) = (n \<noteq> 0)"
| "truthy (JStr s) = (s \<noteq> [])"
| "truthy (JArr xs) = True"
| "truthy JObj = True"

text \<open>A string field that may be absent: \<open>None\<close> is \<open>undefined\<close>.\<close>

definition str_val :: "string option \<Rightarrow> jsval" where
  "str_val s = (case s of None \<Rightarrow> JUndefined | Some x \<Rightarrow> JStr x)"

definition startsWith :: "string \<Rightarrow> string \<Rightarrow> bool" where
  "startsWith s p = (take (length p) s = p)"

fun includes_str :: "string \<Rightarrow> string \<Rightarrow> bool" where
  "includes_str [] p = (p = [])"
| "includes_str (c # cs) p = (startsWith (c # cs) p \<or> includes_str cs p)"

definition is_space :: "char \<Rightarrow> bool" where
  "is_space c = (of_char c \<in> {9::nat, 10, 11, 12, 13, 32, 160})"

definition trim :: "string \<Rightarrow> string" where
  "trim s = rev (dropWhile is_space (rev (dropWhile is_space s)))"

text \<open>
  \<open>HR_USER\<close> is imported from \<open>config/constants\<close>; its two fields are parameters of
  every function that reads them.
\<close>

record hr_user =
  ID :: string
  NAME :: string

subsection \<open>JSON.parse\<close>

text \<open>
  Every call of \<open>JSON.parse\<close> in the resolution code is guarded by
  \<open>startsWith('[')\<close>. On such a text \<open>JSON.parse\<close> either returns an array or throws a
  \<open>SyntaxError\<close>, so the host's parser is a parameter of type \<open>parser\<close>: \<open>Some xs\<close> is the
  array with elements \<open>xs\<close>, \<open>None\<close> is the exception, and the \<open>None\<close> branch of each
  \<open>case\<close> below is the \<open>catch\<close> block of the source. The test \<open>Array.isArray(parsed)\<close>
  that follows a successful parse is true on every such result.
\<close>

type_synonym parser = "string \<Rightarrow> jsval list option"

text \<open>
  A reference parser for the texts that occur in stored rosters, arrays of string
  literals such as \<open>["Sarah Connor (HR)", "Alice Johnson"]\<close>. It reads such an
  array, with the two-character escapes of JSON and without \<open>\u\<close> escapes, and
  rejects every other text. It is used to run the model on concrete documents; the
  general theorems hold for every parser.
\<close>

definition json_ws :: "char \<Rightarrow> bool" where
  "json_ws c = (of_char c \<in> {9::nat, 10, 13, 32})"

definition unescape :: "char \<Rightarrow> char option" where
  "unescape e =
    (if e = CHR ''\"'' then Some (CHR ''\"'')
     else if e = CHR 0x5C then Some (CHR 0x5C)
     else if e = CHR ''/'' then Some (CHR ''/'')
     else if e = CHR ''b'' then Some (CHR 0x08)
     else if e = CHR ''f'' then Some (CHR 0x0C)
     else if e = CHR ''n'' then Some (CHR 0x0A)
     else if e = CHR ''r'' then Some (CHR 0x0D)
     else if e = CHR ''t'' then Some (CHR 0x09)
     else None)"

fun parse_chars :: "string \<Rightarrow> string \<Rightarrow> (string \<times> string) option" where
  "parse_chars acc [] = None"
| "parse_chars acc (c # cs) =
    (if c = CHR ''\"'' then Some (rev acc, cs)
     else if c = CHR 0x5C then
       (case cs of
          [] \<Rightarrow> None
        | e # cs' \<Rightarrow>
            (case unescape e of
               None \<Rightarrow> None
             | Some d \<Rightarrow> parse_chars (d # acc) cs'))
     else if (of_char c :: nat) < 32 then None
     else parse_chars (c # acc) cs)"

fun parse_elems :: "nat \<Rightarrow> string \<Rightarrow> jsval list option" where
  "parse_elems 0 s = None"
| "parse_elems (Suc n) s =
    (case dropWhile json_ws s of
       [] \<Rightarrow> None
     | c # r \<Rightarrow>
         if c = CHR ''\"'' then
           (case parse_chars [] r of
              None \<Rightarrow> None
            | Some (str, r') \<Rightarrow>
                (case dropWhile json_ws r' of
                   [] \<Rightarrow> None
                 | d # r'' \<Rightarrow>
                     if d = CHR '','' then map_option (Cons (JStr str)) (parse_elems n r'')
                     else if d = CHR '']'' \<and> dropWhile json_ws r'' = [] then Some [JStr str]
                     else None))
         else None)"

definition JSON_parse :: parser where
  "JSON_parse s =
    (case dropWhile json_ws s of
       [] \<Rightarrow> None
     | c # r \<Rightarrow>
         if c = CHR ''['' then
           (case dropWhile json_ws r of
              [] \<Rightarrow> None
            | d # r' \<Rightarrow>
                if d = CHR '']'' then (if dropWhile json_ws r' = [] then Some [] else None)
                else parse_elems (length r) r)
         else None)"

section \<open>Role classification\<close>

subsection \<open>Dashboard: the roster block shared by the hook and the message bubble\<close>

text \<open>
  The dashboard repeats one block that turns \<open>participantNames\<close> into \<open>namesArray\<close>:
  in \<open>isHRMessage\<close> and \<open>employeeList\<close> of the \<open>useChat\<close> hook, in
  \<open>getHRNameFromParticipantNames\<close> of the chat service and in the copy of that function
  in \<open>MessageBubble\<close>. An array is re-parsed only when it has exactly one element, a
  string that starts with \<open>[\<close>; a string that starts with \<open>[\<close> and fails to parse
  becomes the one-element array holding that string.
\<close>

definition namesArray_dashboard :: "parser \<Rightarrow> jsval \<Rightarrow> jsval list" where
  "namesArray_dashboard parse participantNames =
    (case participantNames of
       JArr xs \<Rightarrow>
         (case xs of
            [JStr first] \<Rightarrow>
              if startsWith first ''['' then
                (case parse first of Some parsed \<Rightarrow> parsed | None \<Rightarrow> xs)
              else xs
          | _ \<Rightarrow> xs)
     | JStr s \<Rightarrow>
         if startsWith s ''['' then
           (case parse s of Some parsed \<Rightarrow> parsed | None \<Rightarrow> [JStr s])
         else []
     | _ \<Rightarrow> [])"

text \<open>\<open>getHRNameFromParticipantNames\<close> (chat service and \<open>MessageBubble\<close>).\<close>

definition getHRNameFromParticipantNames :: "parser \<Rightarrow> jsval \<Rightarrow> jsval" where
  "getHRNameFromParticipantNames parse participantNames =
    (if \<not> truthy participantNames then JNull
     else
       (case namesArray_dashboard parse participantNames of
          JStr n # _ \<Rightarrow> JStr (trim n)
        | _ \<Rightarrow> JNull))"

text \<open>
  \<open>isHRMessage\<close> of the dashboard's \<open>useChat\<close> hook. The \<open>(HR)\<close> marker and the
  \<open>HR_USER.ID\<close> constant are tested first and return at once; the roster is read only
  after both have failed.
\<close>

definition isHRMessage :: "parser \<Rightarrow> hr_user \<Rightarrow> string option \<Rightarrow> jsval \<Rightarrow> bool" where
  "isHRMessage parse HR_USER senderId participantNames =
    (if (case senderId of None \<Rightarrow> False | Some s \<Rightarrow> s \<noteq> [] \<and> includes_str s ''(HR)'') then True
     else if senderId = Some (ID HR_USER) then True
     else if truthy participantNames then
       (case namesArray_dashboard parse participantNames of
          JStr n # _ \<Rightarrow> senderId = Some (trim n)
        | _ \<Rightarrow> False)
     else False)"

text \<open>
  \<open>isFromHR\<close> of \<open>MessageBubble\<close>: a disjunction of the \<open>isHR\<close> prop, the roster match,
  the marker and the constant.
\<close>

definition isFromHR :: "parser \<Rightarrow> hr_user \<Rightarrow> bool \<Rightarrow> string option \<Rightarrow> jsval \<Rightarrow> bool" where
  "isFromHR parse HR_USER isHR senderId participantNames =
    (let hrName = (if truthy participantNames
                   then getHRNameFromParticipantNames parse participantNames
                   else JNull)
     in isHR
        \<or> (truthy hrName \<and> str_val senderId = hrName)
        \<or> (case senderId of None \<Rightarrow> False | Some s \<Rightarrow> s \<noteq> [] \<and> includes_str s ''(HR)'')
        \<or> senderId = Some (ID HR_USER))"

subsection \<open>Mobile: the chat hook\<close>

text \<open>
  On the mobile side \<open>conversation\<close> is the document held by the hook, \<open>None\<close> while it
  has not been loaded; the model passes its \<open>participantNames\<close> field. The block that
  builds \<open>namesArray\<close> there, and in both \<open>getLastMessagePrefix\<close> functions, re-parses
  the first element whenever it is a string that starts with \<open>[\<close>, whatever the length
  of the array. \<open>None\<close> is the \<open>catch\<close> block of the string case, which each caller
  treats in its own way.
\<close>

definition namesArray_firstElement :: "parser \<Rightarrow> jsval \<Rightarrow> jsval list option" where
  "namesArray_firstElement parse participantNames =
    (case participantNames of
       JArr (firstElement # rest) \<Rightarrow>
         (case firstElement of
            JStr f \<Rightarrow>
              if startsWith f ''['' then
                (case parse f of
                   Some parsed \<Rightarrow> Some parsed
                 | None \<Rightarrow> Some (firstElement # rest))
              else Some (firstElement # rest)
          | _ \<Rightarrow> Some (firstElement # rest))
     | JStr s \<Rightarrow>
         if startsWith s ''['' then
           (case parse s of Some parsed \<Rightarrow> Some parsed | None \<Rightarrow> None)
         else Some []
     | _ \<Rightarrow> Some [])"

text \<open>
  \<open>getHRNameFromParticipantNames\<close> and \<open>getEmployeeNameFromParticipantNames\<close> of the
  mobile hook; \<open>None\<close> from \<open>namesArray_firstElement\<close> is the \<open>return null\<close> of the
  \<open>catch\<close> block.
\<close>

definition mobile_getHRNameFromParticipantNames :: "parser \<Rightarrow> jsval option \<Rightarrow> jsval" where
  "mobile_getHRNameFromParticipantNames parse conversation =
    (case conversation of
       None \<Rightarrow> JNull
     | Some participantNames \<Rightarrow>
         if \<not> truthy participantNames then JNull
         else
           (case namesArray_firstElement parse participantNames of
              None \<Rightarrow> JNull
            | Some namesArray \<Rightarrow>
                (case namesArray of [] \<Rightarrow> JNull | n # _ \<Rightarrow> n)))"

definition mobile_getEmployeeNameFromParticipantNames :: "parser \<Rightarrow> jsval option \<Rightarrow> jsval" where
  "mobile_getEmployeeNameFromParticipantNames parse conversation =
    (case conversation of
       None \<Rightarrow> JNull
     | Some participantNames \<Rightarrow>
         if \<not> truthy participantNames then JNull
         else
           (case namesArray_firstElement parse participantNames of
              None \<Rightarrow> JNull
            | Some namesArray \<Rightarrow>
                if length namesArray \<ge> 2 then namesArray ! 1 else JNull))"

text \<open>
  \<open>isHRMessage\<close> of the mobile hook: when the roster gives an HR name, that exact
  match alone decides; \<open>HR_USER.NAME\<close> and \<open>HR_USER.ID\<close> are consulted otherwise.
\<close>

definition mobile_isHRMessage :: "parser \<Rightarrow> hr_user \<Rightarrow> jsval option \<Rightarrow> string option \<Rightarrow> bool" where
  "mobile_isHRMessage parse HR_USER conversation senderId =
    (let hrName = (case conversation of
                     None \<Rightarrow> JNull
                   | Some _ \<Rightarrow> mobile_getHRNameFromParticipantNames parse conversation)
     in if truthy hrName then str_val senderId = hrName
        else senderId = Some (NAME HR_USER) \<or> senderId = Some (ID HR_USER))"

text \<open>
  \<open>isSentMessage\<close> of the mobile hook; \<open>currentEmployeeName\<close> is the hook's state,
  \<open>None\<close> while unset.
\<close>

definition mobile_isSentMessage :: "parser \<Rightarrow> string option \<Rightarrow> jsval option \<Rightarrow> string option \<Rightarrow> bool" where
  "mobile_isSentMessage parse currentEmployeeName conversation senderId =
    (if truthy (str_val currentEmployeeName) \<and> senderId = currentEmployeeName then True
     else
       (let employeeName = (case conversation of
                              None \<Rightarrow> JNull
                            | Some _ \<Rightarrow> mobile_getEmployeeNameFromParticipantNames parse conversation)
        in if truthy employeeName then str_val senderId = employeeName else False))"

section \<open>Conversation names and the last-message prefix\<close>

text \<open>
  The first participant, as \<open>getHRNameFromConversation\<close> of the mobile
  \<open>useConversations\<close> hook and \<open>getConversationName\<close> of \<open>ConversationItem\<close> extract
  it: \<open>Some v\<close> is a \<open>return v\<close> inside the block, \<open>None\<close> falls through to the
  code after it. Nothing is trimmed here.
\<close>

definition firstParticipant :: "parser \<Rightarrow> jsval \<Rightarrow> jsval option" where
  "firstParticipant parse participantNames =
    (case participantNames of
       JArr (firstElement # rest) \<Rightarrow>
         (case firstElement of
            JStr f \<Rightarrow>
              if startsWith f ''['' then
                (case parse f of
                   Some (x # xs) \<Rightarrow> Some x
                 | _ \<Rightarrow> Some firstElement)
              else Some firstElement
          | _ \<Rightarrow> None)
     | JStr s \<Rightarrow>
         if startsWith s ''['' then
           (case parse s of
              Some (x # xs) \<Rightarrow> Some x
            | _ \<Rightarrow> None)
         else None
     | _ \<Rightarrow> None)"

definition getHRNameFromConversation :: "parser \<Rightarrow> jsval option \<Rightarrow> jsval" where
  "getHRNameFromConversation parse conversation =
    (case conversation of
       None \<Rightarrow> JStr []
     | Some participantNames \<Rightarrow>
         if \<not> truthy participantNames then JStr []
         else
           (case firstParticipant parse participantNames of
              Some v \<Rightarrow> v
            | None \<Rightarrow> JStr []))"

text \<open>
  \<open>getConversationName\<close> of \<open>ConversationItem\<close>, from the \<open>employeeName\<close> and
  \<open>participantNames\<close> fields of the conversation it displays.
\<close>

definition getConversationName :: "parser \<Rightarrow> jsval \<Rightarrow> jsval \<Rightarrow> jsval" where
  "getConversationName parse employeeName participantNames =
    (if (case employeeName of
           JStr e \<Rightarrow> e \<noteq> [] \<and> \<not> startsWith e ''['' \<and> \<not> includes_str e ''\", \"''
         | _ \<Rightarrow> False)
     then employeeName
     else
       (case (if truthy participantNames then firstParticipant parse participantNames
              else None) of
          Some v \<Rightarrow> v
        | None \<Rightarrow>
            (case employeeName of
               JStr e \<Rightarrow> employeeName
             | _ \<Rightarrow> JStr ''Conversation'')))"

text \<open>
  \<open>getLastMessagePrefix\<close> of the dashboard's \<open>EmployeeList\<close>. \<open>truncateString\<close> comes
  from \<open>utils/helpers\<close> and is a parameter.
\<close>

definition getLastMessagePrefix ::
  "parser \<Rightarrow> (string \<Rightarrow> nat \<Rightarrow> string) \<Rightarrow> string option \<Rightarrow> jsval \<Rightarrow> string" where
  "getLastMessagePrefix parse truncateString lastMessageSenderId participantNames =
    (if \<not> truthy (str_val lastMessageSenderId) \<or> \<not> truthy participantNames
        \<or> participantNames = JArr [] then []
     else
       (let namesArray = (case namesArray_firstElement parse participantNames of
                            Some xs \<Rightarrow> xs
                          | None \<Rightarrow> [])
        in if length namesArray \<ge> 2 then
             (let hrName = namesArray ! 0; employeeName = namesArray ! 1
              in if str_val lastMessageSenderId = hrName then ''You: ''
                 else
                   (case employeeName of
                      JStr e \<Rightarrow>
                        if lastMessageSenderId = Some e then truncateString e 15 @ '': ''
                        else []
                    | _ \<Rightarrow> []))
           else []))"

text \<open>\<open>getLastMessagePrefix\<close> of the mobile \<open>ConversationItem\<close>.\<close>

definition mobile_getLastMessagePrefix ::
  "parser \<Rightarrow> (string \<Rightarrow> nat \<Rightarrow> string) \<Rightarrow> string option \<Rightarrow> jsval \<Rightarrow> string" where
  "mobile_getLastMessagePrefix parse truncateString lastMessageSenderId participantNames =
    (if \<not> truthy (str_val lastMessageSenderId) \<or> \<not> truthy participantNames then []
     else
       (let namesArray = (case namesArray_firstElement parse participantNames of
                            Some xs \<Rightarrow> xs
                          | None \<Rightarrow> [])
        in if length namesArray \<ge> 2 then
             (let hrName = namesArray ! 0; employeeName = namesArray ! 1
              in if str_val lastMessageSenderId = employeeName then ''You: ''
                 else
                   (case hrName of
                      JStr h \<Rightarrow>
                        if lastMessageSenderId = Some h then truncateString h 15 @ '': ''
                        else []
                    | _ \<Rightarrow> []))
           else []))"

text \<open>
  Modelled from the spec: \<open>truncateString\<close> of \<open>utils/helpers\<close> is not among the
  sources. The spec's rule is to truncate to N characters and to append an ellipsis
  marker only if truncation occurred. It instantiates the parameter above on concrete
  inputs.
\<close>

definition truncateString_spec :: "string \<Rightarrow> nat \<Rightarrow> string" where
  "truncateString_spec str n = (if length str \<le> n then str else take n str @ ''...'')"

section \<open>The dashboard's directory of conversations\<close>

subsection \<open>Timestamps\<close>

text \<open>
  A timestamp field holds nothing (\<open>null\<close> or \<open>undefined\<close>, as for a server timestamp
  that is still pending), a Firestore \<open>Timestamp\<close> with its \<open>seconds\<close> and
  \<open>nanoseconds\<close>, a valid \<open>Date\<close> with its \<open>getTime()\<close>, a number, or some other
  object. \<open>toMillis\<close> is the method of the Firestore \<open>Timestamp\<close>. Numbers are
  rationals: \<open>NaN\<close> and the infinities do not occur in these fields.
\<close>

datatype jstime =
    TsNone
  | TsStamp int nat
  | TsDate rat
  | TsNum rat
  | TsOther

definition toMillis :: "int \<Rightarrow> nat \<Rightarrow> rat" where
  "toMillis seconds nanoseconds = of_int seconds * 1000 + of_nat nanoseconds / 1000000"

text \<open>
  \<open>ts?.toMillis ? ts.toMillis() : 0\<close>, the sort key of several comparators;
  \<open>hasToMillis\<close> is its test.
\<close>

definition hasToMillis :: "jstime \<Rightarrow> bool" where
  "hasToMillis ts = (case ts of TsStamp s n \<Rightarrow> True | _ \<Rightarrow> False)"

definition millisOrZero :: "jstime \<Rightarrow> rat" where
  "millisOrZero ts = (case ts of TsStamp s n \<Rightarrow> toMillis s n | _ \<Rightarrow> 0)"

record conversation =
  conv_id :: "string option"
  conv_participantNames :: jsval
  conv_lastMessage :: "string option"
  conv_lastMessageTimestamp :: jstime
  conv_lastMessageSenderId :: "string option"

record message =
  msg_id :: "string option"
  msg_senderId :: "string option"
  msg_timestamp :: jstime

subsection \<open>Array.prototype.sort\<close>

text \<open>
  \<open>sort\<close> with a comparator is stable: an element moves in front of another only
  when the comparator returns a negative number for that pair. The model inserts from
  the right, which gives the stable order for every consistent comparator.
\<close>

fun insert_sorted :: "('a \<Rightarrow> 'a \<Rightarrow> rat) \<Rightarrow> 'a \<Rightarrow> 'a list \<Rightarrow> 'a list" where
  "insert_sorted cmp x [] = [x]"
| "insert_sorted cmp x (y # ys) =
    (if cmp x y \<le> 0 then x # y # ys else y # insert_sorted cmp x ys)"

definition js_sort :: "('a \<Rightarrow> 'a \<Rightarrow> rat) \<Rightarrow> 'a list \<Rightarrow> 'a list" where
  "js_sort cmp xs = foldr (insert_sorted cmp) xs []"

text \<open>
  \<open>subscribeConversations\<close>, in the dashboard's chat service and in the mobile one: the
  list handed to the callback.
\<close>

definition subscribeConversations :: "conversation list \<Rightarrow> conversation list" where
  "subscribeConversations conversations =
    js_sort (\<lambda>a b. millisOrZero (conv_lastMessageTimestamp b)
                   - millisOrZero (conv_lastMessageTimestamp a)) conversations"

subsection \<open>Names from the conversation id and from the last message\<close>

text \<open>
  \<open>toLowerCase\<close> on the code points below 256: the ASCII capitals and the capitals
  from \<open>0xC0\<close> to \<open>0xDE\<close> (without the multiplication sign \<open>0xD7\<close>) move up by
  \<open>0x20\<close>, every other character stays.
\<close>

definition capital_letters :: string where
  "capital_letters =
    ''ABCDEFGHIJKLMNOPQRSTUVWXYZ'' @
    [CHR 0xC0, CHR 0xC1, CHR 0xC2, CHR 0xC3, CHR 0xC4, CHR 0xC5, CHR 0xC6, CHR 0xC7,
     CHR 0xC8, CHR 0xC9, CHR 0xCA, CHR 0xCB, CHR 0xCC, CHR 0xCD, CHR 0xCE, CHR 0xCF,
     CHR 0xD0, CHR 0xD1, CHR 0xD2, CHR 0xD3, CHR 0xD4, CHR 0xD5, CHR 0xD6, CHR 0xD8,
     CHR 0xD9, CHR 0xDA, CHR 0xDB, CHR 0xDC, CHR 0xDD, CHR 0xDE]"

definition small_letters :: string where
  "small_letters =
    ''abcdefghijklmnopqrstuvwxyz'' @
    [CHR 0xE0, CHR 0xE1, CHR 0xE2, CHR 0xE3, CHR 0xE4, CHR 0xE5, CHR 0xE6, CHR 0xE7,
     CHR 0xE8, CHR 0xE9, CHR 0xEA, CHR 0xEB, CHR 0xEC, CHR 0xED, CHR 0xEE, CHR 0xEF,
     CHR 0xF0, CHR 0xF1, CHR 0xF2, CHR 0xF3, CHR 0xF4, CHR 0xF5, CHR 0xF6, CHR 0xF8,
     CHR 0xF9, CHR 0xFA, CHR 0xFB, CHR 0xFC, CHR 0xFD, CHR 0xFE]"

definition toLowerCase_char :: "char \<Rightarrow> char" where
  "toLowerCase_char c =
    (case map_of (zip capital_letters small_letters) c of
       Some l \<Rightarrow> l
     | None \<Rightarrow> c)"

definition toLowerCase :: "string \<Rightarrow> string" where
  "toLowerCase s = map toLowerCase_char s"

text \<open>\<open>split\<close> on a one-character separator, and \<open>join\<close>.\<close>

fun split :: "char \<Rightarrow> string \<Rightarrow> string list" where
  "split sep [] = [[]]"
| "split sep (c # cs) =
    (if c = sep then [] # split sep cs
     else (c # hd (split sep cs)) # tl (split sep cs))"

fun join :: "string \<Rightarrow> string list \<Rightarrow> string" where
  "join sep [] = []"
| "join sep [w] = w"
| "join sep (w # v # ws) = w @ sep @ join sep (v # ws)"

text \<open>
  \<open>getEmployeeNameFromId\<close> of the dashboard's chat service.
  \<open>String.prototype.toUpperCase\<close> can leave the code points below 256 (the upper case
  of \<open>0xFF\<close> is \<open>U+0178\<close>) and can lengthen a string (the upper case of \<open>0xDF\<close>
  is \<open>SS\<close>), so the host's function is a parameter, applied to \<open>word.charAt(0)\<close>,
  which is \<open>take 1 word\<close>; \<open>word.slice(1)\<close> is \<open>drop 1 word\<close>.
\<close>

definition getEmployeeNameFromId :: "(string \<Rightarrow> string) \<Rightarrow> string option \<Rightarrow> string" where
  "getEmployeeNameFromId toUpperCase employeeId =
    (case employeeId of
       None \<Rightarrow> []
     | Some eid \<Rightarrow>
         if eid = [] \<or> \<not> startsWith eid ''emp_'' then []
         else join '' ''
                (map (\<lambda>word. toUpperCase (take 1 word) @ drop 1 word)
                     (split (CHR ''_'') (drop 4 eid))))"

text \<open>
  A reference for \<open>toUpperCase\<close> on ASCII text, where it agrees with the host; it is
  used to run the model on concrete ids.
\<close>

definition toUpperCase_ascii :: "string \<Rightarrow> string" where
  "toUpperCase_ascii s =
    map (\<lambda>c. case map_of (zip ''abcdefghijklmnopqrstuvwxyz'' ''ABCDEFGHIJKLMNOPQRSTUVWXYZ'') c of
               Some u \<Rightarrow> u
             | None \<Rightarrow> c) s"

text \<open>
  The two regular expressions of the last-message heuristic.
  \<open>[A-Z][a-z]+\<close> is \<open>match_word\<close>, which returns the word and the rest of the text;
  \<open>^([A-Z][a-z]+(?:\s+[A-Z][a-z]+)?)\<close> is \<open>match_name\<close>. Both quantifiers are
  greedy and neither can give characters back to a later part of the pattern, so the
  match is the longest one.
\<close>

definition is_upper :: "char \<Rightarrow> bool" where
  "is_upper c = (c \<in> set ''ABCDEFGHIJKLMNOPQRSTUVWXYZ'')"

definition is_lower :: "char \<Rightarrow> bool" where
  "is_lower c = (c \<in> set ''abcdefghijklmnopqrstuvwxyz'')"

definition is_word :: "char \<Rightarrow> bool" where
  "is_word c = (is_upper c \<or> is_lower c \<or> c \<in> set ''0123456789_'')"

definition match_word :: "string \<Rightarrow> (string \<times> string) option" where
  "match_word s =
    (case s of
       [] \<Rightarrow> None
     | c # cs \<Rightarrow>
         if is_upper c \<and> takeWhile is_lower cs \<noteq> []
         then Some (c # takeWhile is_lower cs, dropWhile is_lower cs)
         else None)"

definition match_name :: "string \<Rightarrow> (string \<times> string) option" where
  "match_name s =
    (case match_word s of
       None \<Rightarrow> None
     | Some (w1, r1) \<Rightarrow>
         if takeWhile is_space r1 \<noteq> [] then
           (case match_word (dropWhile is_space r1) of
              Some (w2, r2) \<Rightarrow> Some (w1 @ takeWhile is_space r1 @ w2, r2)
            | None \<Rightarrow> Some (w1, r1))
         else Some (w1, r1))"

text \<open>
  \<open>\b([A-Z][a-z]+(?:\s+[A-Z][a-z]+)?)\b\<close> at one position whose left side is a word
  boundary: the two-word match when a boundary follows it, else the first word when a
  boundary follows that.
\<close>

definition boundary_next :: "string \<Rightarrow> bool" where
  "boundary_next r = (case r of [] \<Rightarrow> True | c # cs \<Rightarrow> \<not> is_word c)"

definition match_bounded :: "string \<Rightarrow> string option" where
  "match_bounded s =
    (case match_word s of
       None \<Rightarrow> None
     | Some (w1, r1) \<Rightarrow>
         (case (if takeWhile is_space r1 \<noteq> [] then match_word (dropWhile is_space r1)
                else None) of
            Some (w2, r2) \<Rightarrow>
              if boundary_next r2 then Some (w1 @ takeWhile is_space r1 @ w2)
              else Some w1
          | None \<Rightarrow> if boundary_next r1 then Some w1 else None))"

text \<open>
  The global match: \<open>prev_word\<close> tells whether the character before the current
  position is a word character, \<open>skip\<close> counts the characters still covered by the
  last match.
\<close>

fun match_all :: "bool \<Rightarrow> nat \<Rightarrow> string \<Rightarrow> string list" where
  "match_all prev_word skip [] = []"
| "match_all prev_word skip (c # cs) =
    (if skip > 0 then match_all (is_word c) (skip - 1) cs
     else if prev_word then match_all (is_word c) 0 cs
     else
       (case match_bounded (c # cs) of
          Some m \<Rightarrow> m # match_all (is_word c) (length m - 1) cs
        | None \<Rightarrow> match_all (is_word c) 0 cs))"

fun indexOf_from :: "nat \<Rightarrow> string \<Rightarrow> string \<Rightarrow> nat option" where
  "indexOf_from i [] sub = (if sub = [] then Some i else None)"
| "indexOf_from i (c # cs) sub =
    (if startsWith (c # cs) sub then Some i else indexOf_from (Suc i) cs sub)"

definition indexOf :: "string \<Rightarrow> string \<Rightarrow> nat option" where
  "indexOf s sub = indexOf_from 0 s sub"

text \<open>
  The loop over the greetings; the result is the name found, or the empty string when
  the loop ends without a \<open>break\<close>.
\<close>

fun greetingName :: "hr_user \<Rightarrow> string \<Rightarrow> string list \<Rightarrow> string" where
  "greetingName HR_USER lastMessage [] = []"
| "greetingName HR_USER lastMessage (greeting # greetings) =
    (case indexOf (toLowerCase lastMessage) greeting of
       None \<Rightarrow> greetingName HR_USER lastMessage greetings
     | Some index \<Rightarrow>
         (case match_name (trim (drop (index + length greeting) lastMessage)) of
            Some (nameMatch, r) \<Rightarrow>
              if nameMatch \<noteq> NAME HR_USER \<and> \<not> includes_str nameMatch ''(HR)''
              then trim nameMatch
              else greetingName HR_USER lastMessage greetings
          | None \<Rightarrow> greetingName HR_USER lastMessage greetings))"

fun firstOtherName :: "hr_user \<Rightarrow> string list \<Rightarrow> string" where
  "firstOtherName HR_USER [] = []"
| "firstOtherName HR_USER (name # allNames) =
    (if name \<noteq> NAME HR_USER \<and> \<not> includes_str name ''(HR)'' then trim name
     else firstOtherName HR_USER allNames)"

definition nameFromLastMessage :: "hr_user \<Rightarrow> string \<Rightarrow> string" where
  "nameFromLastMessage HR_USER lastMessage =
    (let employeeName = greetingName HR_USER lastMessage [''hello'', ''hi'', ''hey'', ''dear'']
     in if employeeName = [] then firstOtherName HR_USER (match_all False 0 lastMessage)
        else employeeName)"

subsection \<open>employeeList\<close>

text \<open>
  The name taken from the roster: the first entry that is a non-empty string, is not
  \<open>HR_USER.NAME\<close> and carries no \<open>(HR)\<close> marker; failing that, the second entry.
\<close>

definition isEmployeeEntry :: "hr_user \<Rightarrow> jsval \<Rightarrow> bool" where
  "isEmployeeEntry HR_USER name =
    (case name of
       JStr n \<Rightarrow> n \<noteq> [] \<and> n \<noteq> NAME HR_USER \<and> \<not> includes_str n ''(HR)''
     | _ \<Rightarrow> False)"

definition nameFromRoster :: "parser \<Rightarrow> hr_user \<Rightarrow> jsval \<Rightarrow> string" where
  "nameFromRoster parse HR_USER participantNames =
    (if truthy participantNames then
       (let namesArray = namesArray_dashboard parse participantNames
        in if length namesArray > 0 then
             (case filter (isEmployeeEntry HR_USER) namesArray of
                JStr n # _ \<Rightarrow> trim n
              | _ \<Rightarrow>
                  if length namesArray \<ge> 2 then
                    (case namesArray ! 1 of
                       JStr n \<Rightarrow> if n \<noteq> [] then trim n else []
                     | _ \<Rightarrow> [])
                  else [])
           else [])
     else [])"

record employee =
  emp_id :: "string option"
  emp_name :: string
  emp_lastMessage :: string
  emp_lastMessageTimestamp :: jstime
  emp_lastMessageSenderId :: "string option"
  emp_participantNames :: jsval
  emp_unreadCount :: nat

text \<open>The chain of fallbacks for one conversation, before the final \<open>trim\<close>.\<close>

definition resolveName ::
  "parser \<Rightarrow> (string \<Rightarrow> string) \<Rightarrow> hr_user \<Rightarrow> conversation \<Rightarrow> string" where
  "resolveName parse toUpperCase HR_USER conv =
    (let employeeName = nameFromRoster parse HR_USER (conv_participantNames conv);
         employeeName = (if employeeName = []
                         then getEmployeeNameFromId toUpperCase (conv_id conv)
                         else employeeName);
         employeeName = (if employeeName = [] \<and> truthy (str_val (conv_lastMessage conv))
                         then nameFromLastMessage HR_USER (the (conv_lastMessage conv))
                         else employeeName)
     in if trim employeeName = [] then
          (if truthy (str_val (conv_id conv))
           then ''Conversation '' @ take 8 (the (conv_id conv))
           else ''Conversation'')
        else employeeName)"

definition employeeEntry ::
  "parser \<Rightarrow> (string \<Rightarrow> string) \<Rightarrow> hr_user \<Rightarrow> conversation \<Rightarrow> employee" where
  "employeeEntry parse toUpperCase HR_USER conv =
    \<lparr> emp_id = conv_id conv,
      emp_name = trim (resolveName parse toUpperCase HR_USER conv),
      emp_lastMessage = (case conv_lastMessage conv of None \<Rightarrow> [] | Some m \<Rightarrow> m),
      emp_lastMessageTimestamp = conv_lastMessageTimestamp conv,
      emp_lastMessageSenderId =
        (if truthy (str_val (conv_lastMessageSenderId conv))
         then conv_lastMessageSenderId conv else None),
      emp_participantNames =
        (if truthy (conv_participantNames conv) then conv_participantNames conv
         else JArr []),
      emp_unreadCount = 0 \<rparr>"

definition employeeList ::
  "parser \<Rightarrow> (string \<Rightarrow> string) \<Rightarrow> hr_user \<Rightarrow> conversation list \<Rightarrow> employee list" where
  "employeeList parse toUpperCase HR_USER conversations =
    map (employeeEntry parse toUpperCase HR_USER) conversations"

section \<open>The messages of a conversation\<close>

subsection \<open>Mobile: subscribeMessages\<close>

text \<open>
  The filter of \<open>subscribeMessages\<close> in the mobile chat service; \<open>now\<close> is
  \<open>Date.now()\<close>. Only a Firestore \<open>Timestamp\<close> has \<open>toMillis\<close>; every other value
  reaches the final \<open>return false\<close>.
\<close>

definition MAX_SAFE_INTEGER :: rat where
  "MAX_SAFE_INTEGER = 9007199254740991"

definition validMessage :: "rat \<Rightarrow> message \<Rightarrow> bool" where
  "validMessage now message =
    (case msg_timestamp message of
       TsStamp s n \<Rightarrow>
         (let millis = toMillis s n
          in if millis \<noteq> 0 \<and> millis > 0 \<and> millis < MAX_SAFE_INTEGER then
               (let maxFutureTime = now + 60 * 60 * 1000
                in if millis > maxFutureTime then False else True)
             else False)
     | _ \<Rightarrow> False)"

text \<open>
  The \<open>Map\<close> that removes duplicates, as a list of pairs in insertion order. A
  message without an id is stored under \<open>temp_\<close> followed by a random number; the
  model gives it the key \<open>KeyTemp i\<close>, where \<open>i\<close> is its position, so that such
  keys are distinct from each other and from every id.
\<close>

datatype key = KeyId string | KeyTemp nat

fun map_set :: "'k \<Rightarrow> 'v \<Rightarrow> ('k \<times> 'v) list \<Rightarrow> ('k \<times> 'v) list" where
  "map_set k v [] = [(k, v)]"
| "map_set k v ((k', v') # kvs) =
    (if k' = k then (k, v) # kvs else (k', v') # map_set k v kvs)"

text \<open>The callback of \<open>validMessages.forEach\<close>, and the loop.\<close>

definition addMessage :: "nat \<Rightarrow> message \<Rightarrow> (key \<times> message) list \<Rightarrow> (key \<times> message) list" where
  "addMessage i message messageMap =
    (if truthy (str_val (msg_id message)) then
       (case map_of messageMap (KeyId (the (msg_id message))) of
          Some existing \<Rightarrow>
            (let existingTime = millisOrZero (msg_timestamp existing);
                 newTime = millisOrZero (msg_timestamp message)
             in if newTime > existingTime
                then map_set (KeyId (the (msg_id message))) message messageMap
                else messageMap)
        | None \<Rightarrow> map_set (KeyId (the (msg_id message))) message messageMap)
     else map_set (KeyTemp i) message messageMap)"

fun removeDuplicates :: "nat \<Rightarrow> message list \<Rightarrow> (key \<times> message) list \<Rightarrow> (key \<times> message) list" where
  "removeDuplicates i [] messageMap = messageMap"
| "removeDuplicates i (message # rest) messageMap =
    removeDuplicates (Suc i) rest (addMessage i message messageMap)"

definition mobile_subscribeMessages :: "rat \<Rightarrow> message list \<Rightarrow> message list" where
  "mobile_subscribeMessages now messages =
    (let validMessages = filter (validMessage now) messages;
         uniqueMessages = map snd (removeDuplicates 0 validMessages [])
     in js_sort (\<lambda>a b. millisOrZero (msg_timestamp a) - millisOrZero (msg_timestamp b))
          uniqueMessages)"

subsection \<open>Dashboard: subscribeMessages and sortedMessages\<close>

text \<open>
  The dashboard's chat service sorts the snapshot; the \<open>useChat\<close> hook then filters
  and sorts what it received. \<open>localeCompare\<close> depends on the host's locale and is a
  parameter.
\<close>

definition snapshotTime :: "jstime \<Rightarrow> rat" where
  "snapshotTime ts =
    (case ts of
       TsNone \<Rightarrow> 0
     | TsStamp s n \<Rightarrow> toMillis s n
     | TsDate t \<Rightarrow> t
     | TsNum x \<Rightarrow> x
     | TsOther \<Rightarrow> 0)"

definition idOrEmpty :: "message \<Rightarrow> string" where
  "idOrEmpty m = (case msg_id m of None \<Rightarrow> [] | Some i \<Rightarrow> i)"

definition subscribeMessages :: "(string \<Rightarrow> string \<Rightarrow> rat) \<Rightarrow> message list \<Rightarrow> message list" where
  "subscribeMessages localeCompare messages =
    js_sort (\<lambda>a b.
        (let timeA = snapshotTime (msg_timestamp a); timeB = snapshotTime (msg_timestamp b)
         in if timeA = timeB then localeCompare (idOrEmpty a) (idOrEmpty b)
            else timeA - timeB))
      messages"

definition isValidTimestamp :: "jstime \<Rightarrow> bool" where
  "isValidTimestamp timestamp =
    (case timestamp of
       TsNone \<Rightarrow> False
     | TsStamp seconds nanoseconds \<Rightarrow> seconds > 0
     | TsDate t \<Rightarrow> True
     | TsNum x \<Rightarrow> x \<noteq> 0 \<and> x > 0
     | TsOther \<Rightarrow> False)"

definition getTimestampMs :: "message \<Rightarrow> rat" where
  "getTimestampMs message =
    (let ts = msg_timestamp message
     in if ts = TsNone then 0
        else if \<not> isValidTimestamp ts then 0
        else (case ts of
                TsStamp s n \<Rightarrow> toMillis s n
              | TsDate t \<Rightarrow> t
              | TsNum x \<Rightarrow> x
              | _ \<Rightarrow> 0))"

definition sortedMessages :: "(string \<Rightarrow> string \<Rightarrow> rat) \<Rightarrow> message list \<Rightarrow> message list" where
  "sortedMessages localeCompare messages =
    (if messages = [] then []
     else
       (let validMessages = filter (\<lambda>msg. isValidTimestamp (msg_timestamp msg)) messages
        in if validMessages = [] then []
           else js_sort (\<lambda>a b.
                  (let timeA = getTimestampMs a; timeB = getTimestampMs b
                   in if timeA = timeB then localeCompare (idOrEmpty a) (idOrEmpty b)
                      else timeA - timeB))
                validMessages))"

text \<open>What the dashboard's chat window displays for a snapshot.\<close>

definition dashboard_messages :: "(string \<Rightarrow> string \<Rightarrow> rat) \<Rightarrow> message list \<Rightarrow> message list" where
  "dashboard_messages localeCompare snapshot =
    sortedMessages localeCompare (subscribeMessages localeCompare snapshot)"

subsection \<open>The state of the duplicate removal\<close>

text \<open>
  Notions for stating what the loop maintains: the key under which the callback stores
  a message, the map built from the valid messages of a snapshot, and the fact that
  for each message of a set with an id the map holds, under that id, a message that is
  at least as recent.
\<close>

definition key_of :: "nat \<Rightarrow> message \<Rightarrow> key" where
  "key_of i m = (if truthy (str_val (msg_id m)) then KeyId (the (msg_id m)) else KeyTemp i)"

definition messageMap_of :: "rat \<Rightarrow> message list \<Rightarrow> (key \<times> message) list" where
  "messageMap_of now messages = removeDuplicates 0 (filter (validMessage now) messages) []"

definition kept_max :: "message set \<Rightarrow> (key \<times> message) list \<Rightarrow> bool" where
  "kept_max S mp =
    (\<forall>m' \<in> S. truthy (str_val (msg_id m')) \<longrightarrow>
       (\<exists>m. map_of mp (KeyId (the (msg_id m'))) = Some m
            \<and> millisOrZero (msg_timestamp m') \<le> millisOrZero (msg_timestamp m)))"

section \<open>Sample documents\<close>

text \<open>
  Documents like those of the repository's mock data, for running the functions on
  concrete snapshots: a conversation and a message with a given id and timestamp.
\<close>

definition sampleConversation :: "string \<Rightarrow> jstime \<Rightarrow> conversation" where
  "sampleConversation i ts =
    \<lparr> conv_id = Some i,
      conv_participantNames = JArr [JStr ''Sarah Connor (HR)'', JStr ''Alice Johnson''],
      conv_lastMessage = Some ''Hi'',
      conv_lastMessageTimestamp = ts,
      conv_lastMessageSenderId = Some ''Alice Johnson'' \<rparr>"

definition sampleMessage :: "string \<Rightarrow> jstime \<Rightarrow> message" where
  "sampleMessage i ts =
    \<lparr> msg_id = Some i, msg_senderId = Some ''Alice Johnson'', msg_timestamp = ts \<rparr>"

section \<open>Properties\<close>

subsection \<open>Auxiliary facts\<close>

lemma includes_str_nonempty: "includes_str s (c # p) \<Longrightarrow> s \<noteq> []"
  by (cases s) auto

lemma namesArray_firstElement_truthy:
  "namesArray_firstElement parse pn = Some (x # xs) \<Longrightarrow> truthy pn"
  by (auto simp: namesArray_firstElement_def startsWith_def
      split: jsval.splits list.splits if_splits option.splits)

subsection \<open>C1: precedence of the roster over the legacy checks\<close>

text \<open>
  C1, as the code has it. In the mobile hook the roster decides alone once it
  resolves: a message is an HR message exactly when its sender equals the first roster
  name, so \<open>HR_USER.NAME\<close> and \<open>HR_USER.ID\<close> play no part, and a sender equal to
  the second name, and different from the first, is not an HR message and is a sent
  message, whatever markers that name carries; a message is a sent message exactly
  when its sender equals the current employee's name or the second roster name. When
  the roster gives no name (the
  conversation is not loaded, the field is empty or its text does not parse), a
  message is an HR message exactly when its sender is \<open>HR_USER.NAME\<close> or
  \<open>HR_USER.ID\<close>. On the dashboard the \<open>(HR)\<close> marker and the \<open>HR_USER.ID\<close>
  constant classify a sender as HR whatever the roster says, and they alone decide
  (with the \<open>isHR\<close> prop) when there is no roster; with a roster,
  \<open>isHRMessage\<close> holds exactly for a sender that carries the marker, equals
  \<open>HR_USER.ID\<close> or equals the trimmed first name, and \<open>isFromHR\<close> adds the \<open>isHR\<close>
  prop and requires the trimmed first name to be non-empty. So a sender equal to the
  second roster name is classified as not HR there only when it carries neither
  legacy mark and differs from the trimmed first name.
\<close>

theorem C1_roster_precedence:
  assumes roster_m: "namesArray_firstElement parse pn = Some (JStr p # JStr s # rest)"
      and p_set: "p \<noteq> []" and s_other: "s \<noteq> p"
      and no_roster: "\<not> truthy pn0 \<or> namesArray_firstElement parse pn0 = None
                       \<or> namesArray_firstElement parse pn0 = Some []"
      and legacy: "includes_str m ''(HR)'' \<or> m = ID HR_USER"
      and roster_d: "namesArray_dashboard parse pn' = JStr p' # JStr t # rest'"
      and pn'_set: "truthy pn'"
      and t_plain: "\<not> includes_str t ''(HR)''" "t \<noteq> ID HR_USER" "t \<noteq> trim p'"
  shows "mobile_isHRMessage parse HR_USER (Some pn) sender = (sender = Some p)
       \<and> \<not> mobile_isHRMessage parse HR_USER (Some pn) (Some s)
       \<and> (s \<noteq> [] \<longrightarrow> mobile_isSentMessage parse cur (Some pn) (Some s))
       \<and> mobile_isSentMessage parse cur (Some pn) sender
           = ((truthy (str_val cur) \<and> sender = cur) \<or> (s \<noteq> [] \<and> sender = Some s))
       \<and> mobile_isHRMessage parse HR_USER (Some pn0) sender
           = (sender = Some (NAME HR_USER) \<or> sender = Some (ID HR_USER))
       \<and> mobile_isHRMessage parse HR_USER None sender
           = (sender = Some (NAME HR_USER) \<or> sender = Some (ID HR_USER))
       \<and> isHRMessage parse HR_USER (Some m) pn''
       \<and> isFromHR parse HR_USER isHR (Some m) pn''
       \<and> isHRMessage parse HR_USER (Some x) JNull = (includes_str x ''(HR)'' \<or> x = ID HR_USER)
       \<and> isFromHR parse HR_USER isHR (Some x) JNull
           = (isHR \<or> includes_str x ''(HR)'' \<or> x = ID HR_USER)
       \<and> isHRMessage parse HR_USER (Some x) pn'
           = (includes_str x ''(HR)'' \<or> x = ID HR_USER \<or> x = trim p')
       \<and> isFromHR parse HR_USER isHR (Some x) pn'
           = (isHR \<or> (trim p' \<noteq> [] \<and> x = trim p') \<or> includes_str x ''(HR)'' \<or> x = ID HR_USER)
       \<and> \<not> isHRMessage parse HR_USER (Some t) pn'
       \<and> \<not> isFromHR parse HR_USER False (Some t) pn'"
proof -
  have tr: "truthy pn" using roster_m by (rule namesArray_firstElement_truthy)
  have hr: "mobile_getHRNameFromParticipantNames parse (Some pn) = JStr p"
    using roster_m tr by (simp add: mobile_getHRNameFromParticipantNames_def)
  have m0: "mobile_isHRMessage parse HR_USER (Some pn) sender = (sender = Some p)"
    using hr p_set by (cases sender) (auto simp: mobile_isHRMessage_def str_val_def)
  have m1: "\<not> mobile_isHRMessage parse HR_USER (Some pn) (Some s)"
    using hr p_set s_other by (simp add: mobile_isHRMessage_def str_val_def)
  have m2: "s \<noteq> [] \<longrightarrow> mobile_isSentMessage parse cur (Some pn) (Some s)"
    using roster_m tr
    by (simp add: mobile_isSentMessage_def mobile_getEmployeeNameFromParticipantNames_def
        str_val_def)
  have m5: "mobile_isSentMessage parse cur (Some pn) sender
           = ((truthy (str_val cur) \<and> sender = cur) \<or> (s \<noteq> [] \<and> sender = Some s))"
    using roster_m tr
    by (cases sender)
       (auto simp: mobile_isSentMessage_def mobile_getEmployeeNameFromParticipantNames_def
          str_val_def)
  have hr0: "mobile_getHRNameFromParticipantNames parse (Some pn0) = JNull"
    using no_roster by (auto simp: mobile_getHRNameFromParticipantNames_def)
  have m3: "mobile_isHRMessage parse HR_USER (Some pn0) sender
           = (sender = Some (NAME HR_USER) \<or> sender = Some (ID HR_USER))"
    using hr0 by (simp add: mobile_isHRMessage_def)
  have m4: "mobile_isHRMessage parse HR_USER None sender
           = (sender = Some (NAME HR_USER) \<or> sender = Some (ID HR_USER))"
    by (simp add: mobile_isHRMessage_def)
  have mne: "includes_str y ''(HR)'' \<Longrightarrow> y \<noteq> []" for y by (rule includes_str_nonempty)
  have d1: "isHRMessage parse HR_USER (Some m) pn''"
    using legacy mne by (auto simp: isHRMessage_def)
  have d2: "isFromHR parse HR_USER isHR (Some m) pn''"
    using legacy mne by (auto simp: isFromHR_def Let_def)
  have d7: "isHRMessage parse HR_USER (Some x) JNull
           = (includes_str x ''(HR)'' \<or> x = ID HR_USER)"
    using mne [of x] by (auto simp: isHRMessage_def)
  have d8: "isFromHR parse HR_USER isHR (Some x) JNull
           = (isHR \<or> includes_str x ''(HR)'' \<or> x = ID HR_USER)"
    using mne [of x] by (auto simp: isFromHR_def Let_def)
  have d5: "isHRMessage parse HR_USER (Some x) pn'
           = (includes_str x ''(HR)'' \<or> x = ID HR_USER \<or> x = trim p')"
    using roster_d pn'_set mne [of x] by (auto simp: isHRMessage_def)
  have d6: "isFromHR parse HR_USER isHR (Some x) pn'
           = (isHR \<or> (trim p' \<noteq> [] \<and> x = trim p') \<or> includes_str x ''(HR)'' \<or> x = ID HR_USER)"
    using roster_d pn'_set mne [of x]
    by (auto simp: isFromHR_def Let_def getHRNameFromParticipantNames_def str_val_def)
  have d3: "\<not> isHRMessage parse HR_USER (Some t) pn'"
    using roster_d t_plain by (simp add: isHRMessage_def)
  have d4: "\<not> isFromHR parse HR_USER False (Some t) pn'"
    using roster_d t_plain pn'_set
    by (simp add: isFromHR_def Let_def getHRNameFromParticipantNames_def str_val_def)
  from m0 m1 m2 m5 m3 m4 d1 d2 d7 d8 d5 d6 d3 d4 show ?thesis by blast
qed

text \<open>
  The theorem at the roster \<open>["Sarah Connor (HR)", "Ann (HR)"]\<close> and the unparsed
  text \<open>[not json\<close> on mobile, and at the roster \<open>[" Sarah Connor ", "Alice Johnson"]\<close>
  on the dashboard, for the senders \<open>hr_user_001\<close>, \<open>Sarah Connor\<close> and
  \<open>Alice Johnson\<close>.
\<close>

theorem C1_roster_precedence_witness:
  "namesArray_firstElement JSON_parse (JArr [JStr ''Sarah Connor (HR)'', JStr ''Ann (HR)''])
     = Some [JStr ''Sarah Connor (HR)'', JStr ''Ann (HR)'']
   \<and> \<not> mobile_isHRMessage JSON_parse \<lparr>ID = ''hr_user_001'', NAME = ''HR Manager''\<rparr>
         (Some (JArr [JStr ''Sarah Connor (HR)'', JStr ''Ann (HR)''])) (Some ''Ann (HR)'')
   \<and> \<not> mobile_isHRMessage JSON_parse \<lparr>ID = ''hr_user_001'', NAME = ''HR Manager''\<rparr>
         (Some (JArr [JStr ''Sarah Connor (HR)'', JStr ''Ann (HR)''])) (Some ''hr_user_001'')
   \<and> mobile_isSentMessage JSON_parse None
         (Some (JArr [JStr ''Sarah Connor (HR)'', JStr ''Ann (HR)''])) (Some ''Ann (HR)'')
   \<and> mobile_isHRMessage JSON_parse \<lparr>ID = ''hr_user_001'', NAME = ''HR Manager''\<rparr>
         (Some (JStr ''[not json'')) (Some ''hr_user_001'')
   \<and> isHRMessage JSON_parse \<lparr>ID = ''hr_user_001'', NAME = ''HR Manager''\<rparr>
         (Some ''hr_user_001'') JNull
   \<and> isHRMessage JSON_parse \<lparr>ID = ''hr_user_001'', NAME = ''HR Manager''\<rparr>
         (Some ''Sarah Connor'') (JArr [JStr '' Sarah Connor '', JStr ''Alice Johnson''])
   \<and> isFromHR JSON_parse \<lparr>ID = ''hr_user_001'', NAME = ''HR Manager''\<rparr> False
         (Some ''Sarah Connor'') (JArr [JStr '' Sarah Connor '', JStr ''Alice Johnson''])
   \<and> \<not> isHRMessage JSON_parse \<lparr>ID = ''hr_user_001'', NAME = ''HR Manager''\<rparr>
         (Some ''Alice Johnson'') (JArr [JStr '' Sarah Connor '', JStr ''Alice Johnson''])
   \<and> \<not> isFromHR JSON_parse \<lparr>ID = ''hr_user_001'', NAME = ''HR Manager''\<rparr> False
         (Some ''Alice Johnson'') (JArr [JStr '' Sarah Connor '', JStr ''Alice Johnson''])"
proof -
  let ?hr = "\<lparr>ID = ''hr_user_001'', NAME = ''HR Manager''\<rparr>"
  have h1: "namesArray_firstElement JSON_parse (JArr [JStr ''Sarah Connor (HR)'', JStr ''Ann (HR)''])
      = Some (JStr ''Sarah Connor (HR)'' # JStr ''Ann (HR)'' # [])"
    by (simp add: namesArray_firstElement_def startsWith_def)
  have h2: "''Sarah Connor (HR)'' \<noteq> []" by simp
  have h3: "''Ann (HR)'' \<noteq> ''Sarah Connor (HR)''" by simp
  have pz: "JSON_parse ''[not json'' = None" by (simp add: JSON_parse_def json_ws_def)
  have h0: "\<not> truthy (JStr ''[not json'')
      \<or> namesArray_firstElement JSON_parse (JStr ''[not json'') = None
      \<or> namesArray_firstElement JSON_parse (JStr ''[not json'') = Some []"
    using pz by (simp add: namesArray_firstElement_def startsWith_def)
  have h4: "includes_str ''hr_user_001'' ''(HR)'' \<or> ''hr_user_001'' = ID ?hr" by simp
  have h5: "namesArray_dashboard JSON_parse
      (JArr [JStr '' Sarah Connor '', JStr ''Alice Johnson''])
      = JStr '' Sarah Connor '' # JStr ''Alice Johnson'' # []"
    by (simp add: namesArray_dashboard_def)
  have h6: "truthy (JArr [JStr '' Sarah Connor '', JStr ''Alice Johnson''])" by simp
  have h7: "\<not> includes_str ''Alice Johnson'' ''(HR)''" by (simp add: startsWith_def)
  have h8: "''Alice Johnson'' \<noteq> ID ?hr" by simp
  have t: "trim '' Sarah Connor '' = ''Sarah Connor''" by (simp add: trim_def is_space_def)
  have h9: "''Alice Johnson'' \<noteq> trim '' Sarah Connor ''" using t by simp
  from C1_roster_precedence [OF h1 h2 h3 h0 h4 h5 h6 h7 h8 h9,
      where sender = "Some ''hr_user_001''" and x = "''Sarah Connor''" and cur = None
        and pn'' = JNull and isHR = False] h1 t
  show ?thesis by simp
qed

text \<open>
  C1 as stated fails on the dashboard. In the roster \<open>["Sarah Connor (HR)", "Ann (HR)"]\<close>
  the sender \<open>Ann (HR)\<close> is the second name, yet \<open>isHRMessage\<close> and \<open>isFromHR\<close>
  classify the message as sent by HR; the same happens for a second name equal to
  \<open>HR_USER.ID\<close>.
\<close>

theorem C1_counterexample:
  "namesArray_dashboard JSON_parse (JArr [JStr ''Sarah Connor (HR)'', JStr ''Ann (HR)''])
     = [JStr ''Sarah Connor (HR)'', JStr ''Ann (HR)'']
   \<and> isHRMessage JSON_parse \<lparr>ID = ''hr_user_001'', NAME = ''HR Manager''\<rparr> (Some ''Ann (HR)'')
       (JArr [JStr ''Sarah Connor (HR)'', JStr ''Ann (HR)''])
   \<and> isFromHR JSON_parse \<lparr>ID = ''hr_user_001'', NAME = ''HR Manager''\<rparr> False (Some ''Ann (HR)'')
       (JArr [JStr ''Sarah Connor (HR)'', JStr ''Ann (HR)''])
   \<and> isHRMessage JSON_parse \<lparr>ID = ''hr_user_001'', NAME = ''HR Manager''\<rparr> (Some ''hr_user_001'')
       (JArr [JStr ''Sarah Connor'', JStr ''hr_user_001''])"
  by (simp add: namesArray_dashboard_def isHRMessage_def isFromHR_def startsWith_def
      getHRNameFromParticipantNames_def str_val_def Let_def)

subsection \<open>C2: the three encodings of the roster\<close>

text \<open>
  C2, as the code has it. Let \<open>s\<close> be a text that starts with \<open>[\<close> and that
  \<open>JSON.parse\<close> reads as the pair of names \<open>[A, B]\<close>, a name not being itself a
  text that starts with \<open>[\<close> and parses. The proper array \<open>[A, B]\<close>, the string \<open>s\<close>
  and an array whose first element is \<open>s\<close> give the same working roster \<open>[A, B]\<close> at
  every mobile site and in both \<open>getLastMessagePrefix\<close> functions, whatever follows
  \<open>s\<close> in the array; the first name comes back as stored. The dashboard's roster
  block (\<open>isHRMessage\<close>, \<open>employeeList\<close>, \<open>getHRNameFromParticipantNames\<close>) reads
  \<open>[A, B]\<close>, and returns \<open>A\<close> trimmed, for the proper array, for the string and for the
  one-element array \<open>[s]\<close>; when further elements follow \<open>s\<close>, it takes the array
  itself as the roster and returns the text \<open>s\<close>, trimmed, as the first name.
\<close>

theorem C2_encoding_invariance:
  assumes enc: "startsWith s ''[''" and parsed: "parse s = Some [JStr A, JStr B]"
      and A_plain: "startsWith A ''['' \<Longrightarrow> parse A = None"
      and further: "others \<noteq> []"
  shows "namesArray_dashboard parse (JArr [JStr A, JStr B]) = [JStr A, JStr B]
       \<and> namesArray_dashboard parse (JStr s) = [JStr A, JStr B]
       \<and> namesArray_dashboard parse (JArr [JStr s]) = [JStr A, JStr B]
       \<and> getHRNameFromParticipantNames parse (JArr [JStr A, JStr B]) = JStr (trim A)
       \<and> getHRNameFromParticipantNames parse (JStr s) = JStr (trim A)
       \<and> getHRNameFromParticipantNames parse (JArr [JStr s]) = JStr (trim A)
       \<and> namesArray_dashboard parse (JArr (JStr s # others)) = JStr s # others
       \<and> getHRNameFromParticipantNames parse (JArr (JStr s # others)) = JStr (trim s)
       \<and> namesArray_firstElement parse (JArr [JStr A, JStr B]) = Some [JStr A, JStr B]
       \<and> namesArray_firstElement parse (JStr s) = Some [JStr A, JStr B]
       \<and> namesArray_firstElement parse (JArr (JStr s # anything)) = Some [JStr A, JStr B]
       \<and> getConversationName parse JUndefined (JArr [JStr A, JStr B]) = JStr A
       \<and> getConversationName parse JUndefined (JStr s) = JStr A
       \<and> getConversationName parse JUndefined (JArr (JStr s # anything)) = JStr A
       \<and> getHRNameFromConversation parse (Some (JArr [JStr A, JStr B])) = JStr A
       \<and> getHRNameFromConversation parse (Some (JStr s)) = JStr A
       \<and> getHRNameFromConversation parse (Some (JArr (JStr s # anything))) = JStr A
       \<and> (A \<noteq> [] \<longrightarrow>
            getLastMessagePrefix parse truncateString (Some A) (JArr (JStr s # anything))
              = ''You: '')
       \<and> (B \<noteq> [] \<longrightarrow>
            mobile_getLastMessagePrefix parse truncateString (Some B) (JArr (JStr s # anything))
              = ''You: '')"
proof -
  have ne: "s \<noteq> []" using enc by (auto simp: startsWith_def)
  have n1: "namesArray_dashboard parse (JArr [JStr A, JStr B]) = [JStr A, JStr B]"
    by (simp add: namesArray_dashboard_def)
  have n2: "namesArray_dashboard parse (JStr s) = [JStr A, JStr B]"
    using enc parsed by (simp add: namesArray_dashboard_def)
  have n3: "namesArray_dashboard parse (JArr [JStr s]) = [JStr A, JStr B]"
    using enc parsed by (simp add: namesArray_dashboard_def)
  have n4: "namesArray_dashboard parse (JArr (JStr s # others)) = JStr s # others"
    using further by (cases others) (simp_all add: namesArray_dashboard_def)
  have h1: "getHRNameFromParticipantNames parse (JArr [JStr A, JStr B]) = JStr (trim A)"
    by (simp add: getHRNameFromParticipantNames_def n1)
  have h2: "getHRNameFromParticipantNames parse (JStr s) = JStr (trim A)"
    using ne by (simp add: getHRNameFromParticipantNames_def n2)
  have h3: "getHRNameFromParticipantNames parse (JArr [JStr s]) = JStr (trim A)"
    by (simp add: getHRNameFromParticipantNames_def n3)
  have h4: "getHRNameFromParticipantNames parse (JArr (JStr s # others)) = JStr (trim s)"
    by (simp add: getHRNameFromParticipantNames_def n4)
  have f1: "namesArray_firstElement parse (JArr [JStr A, JStr B]) = Some [JStr A, JStr B]"
    using A_plain by (auto simp: namesArray_firstElement_def)
  have f2: "namesArray_firstElement parse (JStr s) = Some [JStr A, JStr B]"
    using enc parsed by (simp add: namesArray_firstElement_def)
  have f3: "namesArray_firstElement parse (JArr (JStr s # anything)) = Some [JStr A, JStr B]"
    using enc parsed by (simp add: namesArray_firstElement_def)
  have c1: "getConversationName parse JUndefined (JArr [JStr A, JStr B]) = JStr A"
    using A_plain by (auto simp: getConversationName_def firstParticipant_def)
  have c2: "getConversationName parse JUndefined (JStr s) = JStr A"
    using enc parsed ne by (simp add: getConversationName_def firstParticipant_def)
  have c3: "getConversationName parse JUndefined (JArr (JStr s # anything)) = JStr A"
    using enc parsed by (simp add: getConversationName_def firstParticipant_def)
  have g1: "getHRNameFromConversation parse (Some (JArr [JStr A, JStr B])) = JStr A"
    using A_plain by (auto simp: getHRNameFromConversation_def firstParticipant_def)
  have g2: "getHRNameFromConversation parse (Some (JStr s)) = JStr A"
    using enc parsed ne by (simp add: getHRNameFromConversation_def firstParticipant_def)
  have g3: "getHRNameFromConversation parse (Some (JArr (JStr s # anything))) = JStr A"
    using enc parsed by (simp add: getHRNameFromConversation_def firstParticipant_def)
  have p1: "A \<noteq> [] \<longrightarrow>
      getLastMessagePrefix parse truncateString (Some A) (JArr (JStr s # anything)) = ''You: ''"
    by (simp add: getLastMessagePrefix_def f3 str_val_def)
  have p2: "B \<noteq> [] \<longrightarrow>
      mobile_getLastMessagePrefix parse truncateString (Some B) (JArr (JStr s # anything))
        = ''You: ''"
    by (simp add: mobile_getLastMessagePrefix_def f3 str_val_def)
  from n1 n2 n3 n4 h1 h2 h3 h4 f1 f2 f3 c1 c2 c3 g1 g2 g3 p1 p2 show ?thesis by simp
qed

text \<open>
  The theorem at the text of the stored roster
  \<open>["Sarah Connor (HR)", "Alice Johnson"]\<close>, followed in the array by one element.
\<close>

theorem C2_encoding_invariance_witness:
  "JSON_parse ''[\"Sarah Connor (HR)\", \"Alice Johnson\"]''
     = Some [JStr ''Sarah Connor (HR)'', JStr ''Alice Johnson'']
   \<and> namesArray_dashboard JSON_parse (JStr ''[\"Sarah Connor (HR)\", \"Alice Johnson\"]'')
       = [JStr ''Sarah Connor (HR)'', JStr ''Alice Johnson'']
   \<and> namesArray_dashboard JSON_parse (JArr [JStr ''[\"Sarah Connor (HR)\", \"Alice Johnson\"]''])
       = [JStr ''Sarah Connor (HR)'', JStr ''Alice Johnson'']
   \<and> getHRNameFromParticipantNames JSON_parse
         (JArr [JStr ''[\"Sarah Connor (HR)\", \"Alice Johnson\"]'']) = JStr ''Sarah Connor (HR)''
   \<and> namesArray_firstElement JSON_parse
         (JArr [JStr ''[\"Sarah Connor (HR)\", \"Alice Johnson\"]'', JStr ''Alice Johnson''])
       = Some [JStr ''Sarah Connor (HR)'', JStr ''Alice Johnson'']
   \<and> getConversationName JSON_parse JUndefined
         (JStr ''[\"Sarah Connor (HR)\", \"Alice Johnson\"]'') = JStr ''Sarah Connor (HR)''
   \<and> getConversationName JSON_parse JUndefined
         (JArr [JStr ''[\"Sarah Connor (HR)\", \"Alice Johnson\"]'', JStr ''Alice Johnson''])
       = JStr ''Sarah Connor (HR)''
   \<and> getConversationName JSON_parse JUndefined
         (JArr [JStr ''Sarah Connor (HR)'', JStr ''Alice Johnson'']) = JStr ''Sarah Connor (HR)''
   \<and> namesArray_dashboard JSON_parse
         (JArr [JStr ''[\"Sarah Connor (HR)\", \"Alice Johnson\"]'', JStr ''Alice Johnson''])
       = [JStr ''[\"Sarah Connor (HR)\", \"Alice Johnson\"]'', JStr ''Alice Johnson'']"
proof -
  have h1: "startsWith ''[\"Sarah Connor (HR)\", \"Alice Johnson\"]'' ''[''"
    by (simp add: startsWith_def)
  have h2: "JSON_parse ''[\"Sarah Connor (HR)\", \"Alice Johnson\"]''
      = Some [JStr ''Sarah Connor (HR)'', JStr ''Alice Johnson'']"
    by (simp add: JSON_parse_def json_ws_def unescape_def)
  have h3: "startsWith ''Sarah Connor (HR)'' ''[''
      \<Longrightarrow> JSON_parse ''Sarah Connor (HR)'' = None"
    by (simp add: startsWith_def)
  have h4: "[JStr ''Alice Johnson''] \<noteq> []" by simp
  have t: "trim ''Sarah Connor (HR)'' = ''Sarah Connor (HR)''"
    by (simp add: trim_def is_space_def)
  from C2_encoding_invariance [OF h1 h2 h3 h4, where anything = "[JStr ''Alice Johnson'']"] h2 t
  show ?thesis by simp
qed

text \<open>
  C2 as stated fails on the dashboard. For the array whose first element is the text
  \<open>["Sarah Connor (HR)", "Alice Johnson"]\<close> and whose second element is a name, the
  roster block keeps the array as it is and \<open>getHRNameFromParticipantNames\<close> returns
  the whole text as the name of HR, where the proper pair gives \<open>Sarah Connor (HR)\<close>.
\<close>

theorem C2_counterexample:
  "JSON_parse ''[\"Sarah Connor (HR)\", \"Alice Johnson\"]''
     = Some [JStr ''Sarah Connor (HR)'', JStr ''Alice Johnson'']
   \<and> getHRNameFromParticipantNames JSON_parse
         (JArr [JStr ''[\"Sarah Connor (HR)\", \"Alice Johnson\"]'', JStr ''Alice Johnson''])
       = JStr ''[\"Sarah Connor (HR)\", \"Alice Johnson\"]''
   \<and> namesArray_dashboard JSON_parse
         (JArr [JStr ''[\"Sarah Connor (HR)\", \"Alice Johnson\"]'', JStr ''Alice Johnson''])
       = [JStr ''[\"Sarah Connor (HR)\", \"Alice Johnson\"]'', JStr ''Alice Johnson'']
   \<and> getHRNameFromParticipantNames JSON_parse
         (JArr [JStr ''Sarah Connor (HR)'', JStr ''Alice Johnson'']) = JStr ''Sarah Connor (HR)''"
  by (simp add: getHRNameFromParticipantNames_def namesArray_dashboard_def trim_def
      is_space_def JSON_parse_def json_ws_def unescape_def)

subsection \<open>C3: a roster that is absent or does not parse\<close>

text \<open>
  C3, as the code has it. Let \<open>participantNames\<close> be \<open>undefined\<close>, \<open>null\<close>, or a
  string that does not start with \<open>[\<close> or that \<open>JSON.parse\<close> rejects. Every function
  returns a value: on mobile \<open>getHRNameFromConversation\<close> returns the empty string, the
  hook's two extractors return \<open>null\<close>, and \<open>getConversationName\<close> falls back to
  \<open>employeeName\<close> when that is a string and to \<open>Conversation\<close> otherwise. The
  dashboard's \<open>getHRNameFromParticipantNames\<close> returns \<open>null\<close>, except for a string
  that starts with \<open>[\<close> and fails to parse, which it returns trimmed.
\<close>

theorem C3_unparsed_roster:
  assumes unusable: "pn = JUndefined \<or> pn = JNull
      \<or> (\<exists>s. pn = JStr s \<and> (startsWith s ''['' \<longrightarrow> parse s = None))"
  shows "getHRNameFromConversation parse (Some pn) = JStr []
       \<and> mobile_getHRNameFromParticipantNames parse (Some pn) = JNull
       \<and> mobile_getEmployeeNameFromParticipantNames parse (Some pn) = JNull
       \<and> getConversationName parse JUndefined pn = JStr ''Conversation''
       \<and> getConversationName parse (JStr e) pn = JStr e
       \<and> getHRNameFromParticipantNames parse pn =
            (case pn of
               JStr s \<Rightarrow> if startsWith s ''['' then JStr (trim s) else JNull
             | _ \<Rightarrow> JNull)"
  using unusable
  by (auto simp: getHRNameFromConversation_def mobile_getHRNameFromParticipantNames_def
      mobile_getEmployeeNameFromParticipantNames_def getConversationName_def
      getHRNameFromParticipantNames_def firstParticipant_def namesArray_firstElement_def
      namesArray_dashboard_def startsWith_def)

text \<open>The theorem at the string \<open>[not json\<close>, which the parser rejects.\<close>

theorem C3_unparsed_roster_witness:
  "JSON_parse ''[not json'' = None
   \<and> getHRNameFromConversation JSON_parse (Some (JStr ''[not json'')) = JStr []
   \<and> mobile_getHRNameFromParticipantNames JSON_parse (Some (JStr ''[not json'')) = JNull
   \<and> getConversationName JSON_parse JUndefined (JStr ''[not json'') = JStr ''Conversation''"
proof -
  have p: "JSON_parse ''[not json'' = None"
    by (simp add: JSON_parse_def json_ws_def)
  have h: "JStr ''[not json'' = JUndefined \<or> JStr ''[not json'' = JNull
      \<or> (\<exists>s. JStr ''[not json'' = JStr s \<and> (startsWith s ''['' \<longrightarrow> JSON_parse s = None))"
    using p by simp
  from C3_unparsed_roster [OF h] p show ?thesis by simp
qed

text \<open>
  C3 as stated fails: the result is not always the empty string or \<open>null\<close>. The
  dashboard hands back the unparsed text \<open>[not json\<close> as the HR name, and the mobile
  \<open>getConversationName\<close> answers \<open>Conversation\<close> for a conversation without roster.
\<close>

theorem C3_counterexample:
  "JSON_parse ''[not json'' = None
   \<and> getHRNameFromParticipantNames JSON_parse (JStr ''[not json'') = JStr ''[not json''
   \<and> getConversationName JSON_parse JUndefined JUndefined = JStr ''Conversation''"
  by (simp add: getHRNameFromParticipantNames_def namesArray_dashboard_def startsWith_def
      getConversationName_def trim_def is_space_def JSON_parse_def json_ws_def)

subsection \<open>C4: the prefix of the last message\<close>

text \<open>
  C4. For the roster \<open>["Sarah Connor (HR)", "Alice Johnson"]\<close> and the last sender
  \<open>Alice Johnson\<close>, the dashboard's list shows the prefix \<open>Alice Johnson: \<close> (given
  that \<open>truncateString\<close> leaves this 13-character name unchanged at the limit 15)
  and the mobile list shows \<open>You: \<close>. The dashboard's prefix is computed from the
  entry that \<open>employeeList\<close> builds for the conversation.
\<close>

theorem C4_last_message_prefix:
  assumes short: "truncateString ''Alice Johnson'' 15 = ''Alice Johnson''"
      and roster: "conv_participantNames conv = JArr [JStr ''Sarah Connor (HR)'', JStr ''Alice Johnson'']"
      and sender: "conv_lastMessageSenderId conv = Some ''Alice Johnson''"
  shows "getLastMessagePrefix parse truncateString
           (emp_lastMessageSenderId (employeeEntry parse toUpperCase HR_USER conv))
           (emp_participantNames (employeeEntry parse toUpperCase HR_USER conv)) = ''Alice Johnson: ''
       \<and> mobile_getLastMessagePrefix parse truncateString
           (conv_lastMessageSenderId conv) (conv_participantNames conv) = ''You: ''"
  using short roster sender
  by (simp add: getLastMessagePrefix_def mobile_getLastMessagePrefix_def employeeEntry_def
      namesArray_firstElement_def startsWith_def str_val_def Let_def)

text \<open>The theorem with the truncation rule of the spec and a concrete conversation.\<close>

theorem C4_last_message_prefix_witness:
  "truncateString_spec ''Alice Johnson'' 15 = ''Alice Johnson''
   \<and> getLastMessagePrefix JSON_parse truncateString_spec (Some ''Alice Johnson'')
        (JArr [JStr ''Sarah Connor (HR)'', JStr ''Alice Johnson'']) = ''Alice Johnson: ''
   \<and> mobile_getLastMessagePrefix JSON_parse truncateString_spec (Some ''Alice Johnson'')
        (JArr [JStr ''Sarah Connor (HR)'', JStr ''Alice Johnson'']) = ''You: ''"
proof -
  let ?conv = "\<lparr> conv_id = Some ''emp_alice_johnson'',
      conv_participantNames = JArr [JStr ''Sarah Connor (HR)'', JStr ''Alice Johnson''],
      conv_lastMessage = Some ''Hi'', conv_lastMessageTimestamp = TsStamp 1700000000 0,
      conv_lastMessageSenderId = Some ''Alice Johnson'' \<rparr>"
  have h1: "truncateString_spec ''Alice Johnson'' 15 = ''Alice Johnson''"
    by (simp add: truncateString_spec_def)
  have h2: "conv_participantNames ?conv = JArr [JStr ''Sarah Connor (HR)'', JStr ''Alice Johnson'']"
    by simp
  have h3: "conv_lastMessageSenderId ?conv = Some ''Alice Johnson''" by simp
  from C4_last_message_prefix [where truncateString = truncateString_spec and conv = ?conv
      and parse = JSON_parse and toUpperCase = toUpperCase_ascii
      and HR_USER = "\<lparr>ID = ''hr_user_001'', NAME = ''HR Manager''\<rparr>",
      OF h1 h2 h3] h1
  show ?thesis by (simp add: employeeEntry_def str_val_def)
qed

subsection \<open>C5: one directory entry per conversation\<close>

lemma trim_idem: "trim (trim s) = trim s"
proof -
  define t where "t = dropWhile is_space s"
  define u where "u = dropWhile is_space (rev t)"
  have t: "t = [] \<or> \<not> is_space (hd t)" unfolding t_def by (metis hd_dropWhile)
  have u: "u = [] \<or> \<not> is_space (hd u)" unfolding u_def by (metis hd_dropWhile)
  have rear: "dropWhile is_space (rev u) = rev u"
  proof (cases "u = []")
    case True then show ?thesis by simp
  next
    case False
    then have tne: "t \<noteq> []" unfolding u_def by auto
    obtain ys where ys: "rev t = ys @ u"
      unfolding u_def by (metis takeWhile_dropWhile_id)
    have "last u = last (rev t)" using ys False by simp
    also have "\<dots> = hd t" using tne by (simp add: last_rev)
    finally have "\<not> is_space (last u)" using t tne by simp
    then have "\<not> is_space (hd (rev u))" using False by (simp add: hd_rev)
    then show ?thesis using False by (cases "rev u") auto
  qed
  have front: "dropWhile is_space u = u" using u by (cases u) auto
  have "trim s = rev u" by (simp add: trim_def t_def u_def)
  moreover have "trim (rev u) = rev u" by (simp add: trim_def rear front)
  ultimately show ?thesis by simp
qed









subsection \<open>C7: trimming of roster names\<close>

text \<open>
  C7, as the code has it. The dashboard trims: \<open>getHRNameFromParticipantNames\<close> returns
  the first roster name trimmed, \<open>isHRMessage\<close> compares the sender with the trimmed
  first name, and the name of every \<open>employeeList\<close> entry is trimmed. The mobile app
  uses the roster names as stored: \<open>getConversationName\<close>,
  \<open>getHRNameFromConversation\<close> and \<open>getHRNameFromParticipantNames\<close> return the first
  name unchanged, \<open>isHRMessage\<close> compares the sender with it, and
  \<open>getLastMessagePrefix\<close> answers \<open>You: \<close> for a last sender equal to the second
  name as stored.
\<close>

theorem C7_trimming:
  assumes roster: "namesArray_dashboard parse pn = JStr n # rest" and pn_set: "truthy pn"
      and plain: "\<not> includes_str sid ''(HR)''" "sid \<noteq> ID HR_USER"
      and stored: "\<not> startsWith a ''[''" "a \<noteq> []"
  shows "getHRNameFromParticipantNames parse pn = JStr (trim n)
       \<and> trim (trim n) = trim n
       \<and> isHRMessage parse HR_USER (Some sid) pn = (sid = trim n)
       \<and> trim (emp_name (employeeEntry parse toUpperCase HR_USER conv))
           = emp_name (employeeEntry parse toUpperCase HR_USER conv)
       \<and> getConversationName parse JUndefined (JArr (JStr a # others)) = JStr a
       \<and> getHRNameFromConversation parse (Some (JArr (JStr a # others))) = JStr a
       \<and> mobile_getHRNameFromParticipantNames parse (Some (JArr (JStr a # others))) = JStr a
       \<and> mobile_isHRMessage parse HR_USER (Some (JArr (JStr a # others))) (Some sid) = (sid = a)
       \<and> (b \<noteq> [] \<longrightarrow>
            mobile_getLastMessagePrefix parse truncateString (Some b) (JArr [JStr a, JStr b])
              = ''You: '')"
proof -
  have d1: "getHRNameFromParticipantNames parse pn = JStr (trim n)"
    using roster pn_set by (simp add: getHRNameFromParticipantNames_def)
  have d2: "isHRMessage parse HR_USER (Some sid) pn = (sid = trim n)"
    using roster pn_set plain by (simp add: isHRMessage_def)
  have d3: "trim (emp_name (employeeEntry parse toUpperCase HR_USER conv))
           = emp_name (employeeEntry parse toUpperCase HR_USER conv)"
    by (simp add: employeeEntry_def trim_idem)
  have m1: "getConversationName parse JUndefined (JArr (JStr a # others)) = JStr a"
    using stored by (simp add: getConversationName_def firstParticipant_def)
  have m2: "getHRNameFromConversation parse (Some (JArr (JStr a # others))) = JStr a"
    using stored by (simp add: getHRNameFromConversation_def firstParticipant_def)
  have m3: "mobile_getHRNameFromParticipantNames parse (Some (JArr (JStr a # others))) = JStr a"
    using stored
    by (simp add: mobile_getHRNameFromParticipantNames_def namesArray_firstElement_def)
  have m4: "mobile_isHRMessage parse HR_USER (Some (JArr (JStr a # others))) (Some sid) = (sid = a)"
    using stored m3 by (simp add: mobile_isHRMessage_def str_val_def)
  have p2: "b \<noteq> [] \<longrightarrow>
      mobile_getLastMessagePrefix parse truncateString (Some b) (JArr [JStr a, JStr b]) = ''You: ''"
    using stored
    by (simp add: mobile_getLastMessagePrefix_def namesArray_firstElement_def str_val_def)
  from d1 d2 d3 m1 m2 m3 m4 p2 trim_idem [of n] show ?thesis by simp
qed

text \<open>The theorem at rosters whose first name carries surrounding blanks.\<close>

theorem C7_trimming_witness:
  "getHRNameFromParticipantNames JSON_parse
      (JArr [JStr '' Sarah Connor (HR) '', JStr ''Alice Johnson'']) = JStr ''Sarah Connor (HR)''
   \<and> isHRMessage JSON_parse \<lparr>ID = ''hr_user_001'', NAME = ''HR Manager''\<rparr> (Some ''Sarah Connor'')
        (JArr [JStr '' Sarah Connor '', JStr ''Alice Johnson''])
   \<and> getConversationName JSON_parse JUndefined
        (JArr [JStr '' Sarah Connor '', JStr ''Alice Johnson'']) = JStr '' Sarah Connor ''"
proof -
  let ?hr = "\<lparr>ID = ''hr_user_001'', NAME = ''HR Manager''\<rparr>"
  have t1: "trim '' Sarah Connor (HR) '' = ''Sarah Connor (HR)''"
    by (simp add: trim_def is_space_def)
  have t2: "trim '' Sarah Connor '' = ''Sarah Connor''"
    by (simp add: trim_def is_space_def)
  have a1: "namesArray_dashboard JSON_parse (JArr [JStr '' Sarah Connor (HR) '', JStr ''Alice Johnson''])
      = JStr '' Sarah Connor (HR) '' # [JStr ''Alice Johnson'']"
    by (simp add: namesArray_dashboard_def)
  have a2: "namesArray_dashboard JSON_parse (JArr [JStr '' Sarah Connor '', JStr ''Alice Johnson''])
      = JStr '' Sarah Connor '' # [JStr ''Alice Johnson'']"
    by (simp add: namesArray_dashboard_def)
  have tr1: "truthy (JArr [JStr '' Sarah Connor (HR) '', JStr ''Alice Johnson''])" by simp
  have tr2: "truthy (JArr [JStr '' Sarah Connor '', JStr ''Alice Johnson''])" by simp
  have pl1: "\<not> includes_str ''Sarah Connor'' ''(HR)''" by (simp add: startsWith_def)
  have pl2: "''Sarah Connor'' \<noteq> ID ?hr" by simp
  have st1: "\<not> startsWith '' Sarah Connor '' ''[''" by (simp add: startsWith_def)
  have st2: "'' Sarah Connor '' \<noteq> []" by simp
  from C7_trimming [OF a1 tr1 pl1 pl2 st1 st2] t1
  have w1: "getHRNameFromParticipantNames JSON_parse
      (JArr [JStr '' Sarah Connor (HR) '', JStr ''Alice Johnson'']) = JStr ''Sarah Connor (HR)''"
    by simp
  from C7_trimming [OF a2 tr2 pl1 pl2 st1 st2, where others = "[JStr ''Alice Johnson'']"] t2
  have w2: "isHRMessage JSON_parse ?hr (Some ''Sarah Connor'')
        (JArr [JStr '' Sarah Connor '', JStr ''Alice Johnson''])
     \<and> getConversationName JSON_parse JUndefined
        (JArr [JStr '' Sarah Connor '', JStr ''Alice Johnson'']) = JStr '' Sarah Connor ''"
    by simp
  from w1 w2 show ?thesis by simp
qed

text \<open>
  C7 as stated fails. For the roster \<open>[" Sarah Connor (HR) ", "Alice Johnson"]\<close> the
  mobile list displays the name with its blanks, the mobile \<open>isHRMessage\<close> does not
  recognise the sender \<open>Sarah Connor (HR)\<close>, and the dashboard's prefix for that
  sender is empty; on mobile a blank after the second name loses the \<open>You: \<close> prefix.
\<close>

theorem C7_counterexample:
  "getConversationName JSON_parse JUndefined
      (JArr [JStr '' Sarah Connor (HR) '', JStr ''Alice Johnson'']) = JStr '' Sarah Connor (HR) ''
   \<and> \<not> mobile_isHRMessage JSON_parse \<lparr>ID = ''hr_user_001'', NAME = ''HR Manager''\<rparr>
        (Some (JArr [JStr '' Sarah Connor (HR) '', JStr ''Alice Johnson'']))
        (Some ''Sarah Connor (HR)'')
   \<and> getLastMessagePrefix JSON_parse truncateString_spec (Some ''Sarah Connor (HR)'')
        (JArr [JStr '' Sarah Connor (HR) '', JStr ''Alice Johnson'']) = []
   \<and> mobile_getLastMessagePrefix JSON_parse truncateString_spec (Some ''Alice Johnson'')
        (JArr [JStr ''Sarah Connor (HR)'', JStr ''Alice Johnson '']) = []"
  by (simp add: getConversationName_def firstParticipant_def startsWith_def
      mobile_isHRMessage_def mobile_getHRNameFromParticipantNames_def
      namesArray_firstElement_def getLastMessagePrefix_def mobile_getLastMessagePrefix_def
      str_val_def Let_def)

subsection \<open>C9: the name taken from the conversation id\<close>








subsection \<open>Sorting\<close>

lemma mset_insert_sorted: "mset (insert_sorted cmp x xs) = add_mset x (mset xs)"
  by (induction xs) auto

lemma mset_js_sort: "mset (js_sort cmp xs) = mset xs"
  unfolding js_sort_def by (induction xs) (auto simp: mset_insert_sorted)

lemma set_js_sort: "set (js_sort cmp xs) = set xs"
  by (metis mset_js_sort set_mset_mset)

lemma set_insert_sorted: "set (insert_sorted cmp x xs) = insert x (set xs)"
  by (metis mset_insert_sorted set_mset_mset set_mset_add_mset_insert)

lemma sorted_insert_desc:
  "sorted_wrt (\<lambda>a b. key b \<le> key a) xs
   \<Longrightarrow> sorted_wrt (\<lambda>a b. (key b :: rat) \<le> key a) (insert_sorted (\<lambda>a b. key b - key a) x xs)"
proof (induction xs)
  case Nil
  then show ?case by simp
next
  case (Cons y ys)
  show ?case
  proof (cases "key y - key x \<le> 0")
    case True
    then show ?thesis using Cons.prems by (auto intro: order_trans)
  next
    case False
    then show ?thesis using Cons by (auto simp: set_insert_sorted)
  qed
qed

lemma sorted_js_sort_desc:
  "sorted_wrt (\<lambda>a b. (key b :: rat) \<le> key a) (js_sort (\<lambda>a b. key b - key a) xs)"
  unfolding js_sort_def by (induction xs) (auto intro: sorted_insert_desc)

lemma millisOrZero_pos: "0 < millisOrZero ts \<Longrightarrow> hasToMillis ts"
  by (cases ts) (auto simp: millisOrZero_def hasToMillis_def)

subsection \<open>C6: the order of the directory\<close>

text \<open>
  C6. \<open>subscribeConversations\<close> sorts by the millisecond value of
  \<open>lastMessageTimestamp\<close>, descending, and counts a timestamp without \<open>toMillis\<close> as
  0, the least value a timestamp written by \<open>serverTimestamp()\<close> can have;
  \<open>employeeList\<close> keeps that order. For timestamps \<open>[T3, T1, Unresolved, T2]\<close> with
  \<open>T1 < T2 < T3\<close>, none before the epoch, the order produced is
  \<open>[T3, T2, T1, Unresolved]\<close>. The result is a permutation of the input, sorted by
  that key; with resolved timestamps after the epoch, no entry with an unresolved
  timestamp stands before an entry with a resolved one, and the first entry is
  resolved as soon as one entry is.
\<close>

theorem C6_directory_order:
  assumes t1: "conv_lastMessageTimestamp c1 = TsStamp s1 n1"
      and t2: "conv_lastMessageTimestamp c2 = TsStamp s2 n2"
      and t3: "conv_lastMessageTimestamp c3 = TsStamp s3 n3"
      and tu: "\<not> hasToMillis (conv_lastMessageTimestamp cu)"
      and order: "0 \<le> toMillis s1 n1" "toMillis s1 n1 < toMillis s2 n2"
                 "toMillis s2 n2 < toMillis s3 n3"
      and positive: "\<forall>c \<in> set conversations. \<forall>s n.
                 conv_lastMessageTimestamp c = TsStamp s n \<longrightarrow> 0 < toMillis s n"
  shows "subscribeConversations [c3, c1, cu, c2] = [c3, c2, c1, cu]
       \<and> map emp_id (employeeList parse toUpperCase HR_USER (subscribeConversations [c3, c1, cu, c2]))
           = map conv_id [c3, c2, c1, cu]
       \<and> mset (subscribeConversations conversations) = mset conversations
       \<and> sorted_wrt (\<lambda>a b. millisOrZero (conv_lastMessageTimestamp b)
                            \<le> millisOrZero (conv_lastMessageTimestamp a))
           (subscribeConversations conversations)
       \<and> (\<forall>i j. i < j \<and> j < length (subscribeConversations conversations)
              \<and> hasToMillis (conv_lastMessageTimestamp (subscribeConversations conversations ! j))
            \<longrightarrow> hasToMillis (conv_lastMessageTimestamp (subscribeConversations conversations ! i)))
       \<and> ((\<exists>c \<in> set conversations. hasToMillis (conv_lastMessageTimestamp c))
            \<longrightarrow> hasToMillis (conv_lastMessageTimestamp (hd (subscribeConversations conversations))))"
proof -
  have mu: "millisOrZero (conv_lastMessageTimestamp cu) = 0"
    using tu by (cases "conv_lastMessageTimestamp cu") (auto simp: millisOrZero_def hasToMillis_def)
  have a: "subscribeConversations [c3, c1, cu, c2] = [c3, c2, c1, cu]"
    using t1 t2 t3 mu order
    by (simp add: subscribeConversations_def js_sort_def millisOrZero_def)
  have b: "map emp_id (employeeList parse toUpperCase HR_USER (subscribeConversations [c3, c1, cu, c2]))
           = map conv_id [c3, c2, c1, cu]"
    by (simp add: a employeeList_def employeeEntry_def)
  have c: "mset (subscribeConversations conversations) = mset conversations"
    by (simp add: subscribeConversations_def mset_js_sort)
  have d: "sorted_wrt (\<lambda>a b. millisOrZero (conv_lastMessageTimestamp b)
                            \<le> millisOrZero (conv_lastMessageTimestamp a))
           (subscribeConversations conversations)"
    unfolding subscribeConversations_def
    by (rule sorted_js_sort_desc [where key = "\<lambda>c. millisOrZero (conv_lastMessageTimestamp c)"])
  have e: "hasToMillis (conv_lastMessageTimestamp (subscribeConversations conversations ! i))"
    if ij: "i < j" "j < length (subscribeConversations conversations)"
       and rj: "hasToMillis (conv_lastMessageTimestamp (subscribeConversations conversations ! j))"
    for i j
  proof -
    let ?out = "subscribeConversations conversations"
    have mem: "?out ! j \<in> set conversations"
      using ij(2) by (metis c nth_mem set_mset_mset)
    obtain s n where sn: "conv_lastMessageTimestamp (?out ! j) = TsStamp s n"
      using rj by (cases "conv_lastMessageTimestamp (?out ! j)") (auto simp: hasToMillis_def)
    have "0 < toMillis s n" using positive mem sn by blast
    then have pj: "0 < millisOrZero (conv_lastMessageTimestamp (?out ! j))"
      by (simp add: sn millisOrZero_def)
    have "millisOrZero (conv_lastMessageTimestamp (?out ! j))
          \<le> millisOrZero (conv_lastMessageTimestamp (?out ! i))"
      using d ij by (simp add: sorted_wrt_iff_nth_less)
    with pj have "0 < millisOrZero (conv_lastMessageTimestamp (?out ! i))" by simp
    then show ?thesis by (rule millisOrZero_pos)
  qed
  have f: "hasToMillis (conv_lastMessageTimestamp (hd (subscribeConversations conversations)))"
    if ex: "\<exists>c \<in> set conversations. hasToMillis (conv_lastMessageTimestamp c)"
  proof -
    let ?out = "subscribeConversations conversations"
    from ex obtain c where "c \<in> set ?out" "hasToMillis (conv_lastMessageTimestamp c)"
      by (metis c set_mset_mset)
    then obtain j where j: "j < length ?out" "hasToMillis (conv_lastMessageTimestamp (?out ! j))"
      by (metis in_set_conv_nth)
    then have ne: "?out \<noteq> []" by auto
    show ?thesis
    proof (cases "j = 0")
      case True
      then show ?thesis using j ne by (simp add: hd_conv_nth)
    next
      case False
      then have "hasToMillis (conv_lastMessageTimestamp (?out ! 0))" using e [of 0 j] j by simp
      then show ?thesis using ne by (simp add: hd_conv_nth)
    qed
  qed
  from a b c d e f show ?thesis by blast
qed

text \<open>The theorem for the timestamps 300 s, 100 s, unresolved, 200 s.\<close>

theorem C6_directory_order_witness:
  "subscribeConversations
     [sampleConversation ''c3'' (TsStamp 300 0), sampleConversation ''c1'' (TsStamp 100 0),
      sampleConversation ''cu'' TsNone, sampleConversation ''c2'' (TsStamp 200 0)]
   = [sampleConversation ''c3'' (TsStamp 300 0), sampleConversation ''c2'' (TsStamp 200 0),
      sampleConversation ''c1'' (TsStamp 100 0), sampleConversation ''cu'' TsNone]"
proof -
  let ?c1 = "sampleConversation ''c1'' (TsStamp 100 0)"
  let ?c2 = "sampleConversation ''c2'' (TsStamp 200 0)"
  let ?c3 = "sampleConversation ''c3'' (TsStamp 300 0)"
  let ?cu = "sampleConversation ''cu'' TsNone"
  have h1: "conv_lastMessageTimestamp ?c1 = TsStamp 100 0" by (simp add: sampleConversation_def)
  have h2: "conv_lastMessageTimestamp ?c2 = TsStamp 200 0" by (simp add: sampleConversation_def)
  have h3: "conv_lastMessageTimestamp ?c3 = TsStamp 300 0" by (simp add: sampleConversation_def)
  have hu: "\<not> hasToMillis (conv_lastMessageTimestamp ?cu)"
    by (simp add: sampleConversation_def hasToMillis_def)
  have o1: "0 \<le> toMillis 100 0" by (simp add: toMillis_def)
  have o2: "toMillis 100 0 < toMillis 200 0" by (simp add: toMillis_def)
  have o3: "toMillis 200 0 < toMillis 300 0" by (simp add: toMillis_def)
  have p: "\<forall>c \<in> set [?c3, ?c1]. \<forall>s n.
      conv_lastMessageTimestamp c = TsStamp s n \<longrightarrow> 0 < toMillis s n"
    by (simp add: sampleConversation_def toMillis_def)
  from C6_directory_order [OF h1 h2 h3 hu o1 o2 o3 p] show ?thesis by simp
qed

subsection \<open>The map of the duplicate removal\<close>

lemma set_map_set: "set (map_set k v mp) \<subseteq> insert (k, v) (set mp)"
  by (induction k v mp rule: map_set.induct) auto

lemma map_of_map_set: "map_of (map_set k v mp) = (map_of mp)(k \<mapsto> v)"
  by (induction k v mp rule: map_set.induct) (auto simp: fun_eq_iff)

lemma keys_map_set:
  "map fst (map_set k v mp) = (if k \<in> set (map fst mp) then map fst mp else map fst mp @ [k])"
  by (induction k v mp rule: map_set.induct) auto

lemma distinct_map_set: "distinct (map fst mp) \<Longrightarrow> distinct (map fst (map_set k v mp))"
  by (simp add: keys_map_set)

lemma set_addMessage: "set (addMessage i m mp) \<subseteq> insert (key_of i m, m) (set mp)"
  using set_map_set [of "key_of i m" m mp]
  by (auto simp: addMessage_def key_of_def Let_def split: option.splits)

lemma distinct_addMessage:
  "distinct (map fst mp) \<Longrightarrow> distinct (map fst (addMessage i m mp))"
  by (simp add: addMessage_def Let_def distinct_map_set split: option.splits)

lemma removeDuplicates_subset:
  "(k, m) \<in> set (removeDuplicates i ms mp) \<Longrightarrow> (k, m) \<in> set mp \<or> m \<in> set ms"
proof (induction ms arbitrary: i mp)
  case Nil
  then show ?case by simp
next
  case (Cons a ms)
  from Cons.prems have "(k, m) \<in> set (removeDuplicates (Suc i) ms (addMessage i a mp))"
    by simp
  then have "(k, m) \<in> set (addMessage i a mp) \<or> m \<in> set ms" by (rule Cons.IH)
  then show ?case using set_addMessage [of i a mp] by auto
qed

lemma removeDuplicates_distinct:
  "distinct (map fst mp) \<Longrightarrow> distinct (map fst (removeDuplicates i ms mp))"
  by (induction ms arbitrary: i mp) (auto simp: distinct_addMessage)

lemma removeDuplicates_keys:
  "\<forall>(k, m) \<in> set mp. \<exists>j. k = key_of j m
   \<Longrightarrow> \<forall>(k, m) \<in> set (removeDuplicates i ms mp). \<exists>j. k = key_of j m"
proof (induction ms arbitrary: i mp)
  case Nil
  then show ?case by simp
next
  case (Cons a ms)
  have "\<forall>(k, m) \<in> set (addMessage i a mp). \<exists>j. k = key_of j m"
    using Cons.prems set_addMessage [of i a mp] by auto
  then show ?case using Cons.IH by simp
qed

lemma addMessage_max:
  assumes "kept_max S mp"
  shows "kept_max (insert a S) (addMessage i a mp)"
proof (cases "truthy (str_val (msg_id a))")
  case False
  then have "map_of (addMessage i a mp) (KeyId x) = map_of mp (KeyId x)" for x
    by (simp add: addMessage_def map_of_map_set)
  then show ?thesis using assms False by (auto simp: kept_max_def)
next
  case True
  let ?k = "KeyId (the (msg_id a))"
  show ?thesis
  proof (cases "map_of mp ?k")
    case None
    then have eq: "map_of (addMessage i a mp) = (map_of mp)(?k \<mapsto> a)"
      using True by (simp add: addMessage_def map_of_map_set)
    show ?thesis
      unfolding kept_max_def eq using assms None by (auto simp: kept_max_def)
  next
    case (Some existing)
    show ?thesis
    proof (cases "millisOrZero (msg_timestamp a) > millisOrZero (msg_timestamp existing)")
      case newer: True
      then have eq: "map_of (addMessage i a mp) = (map_of mp)(?k \<mapsto> a)"
        using True Some by (simp add: addMessage_def map_of_map_set)
      show ?thesis
        unfolding kept_max_def eq using assms Some newer
        by (fastforce simp: kept_max_def)
    next
      case older: False
      then have eq: "addMessage i a mp = mp"
        using True Some by (simp add: addMessage_def)
      show ?thesis
        unfolding eq using assms Some older by (auto simp: kept_max_def)
    qed
  qed
qed

lemma removeDuplicates_max:
  "kept_max S mp \<Longrightarrow> kept_max (S \<union> set ms) (removeDuplicates i ms mp)"
proof (induction ms arbitrary: i mp S)
  case Nil
  then show ?case by simp
next
  case (Cons a ms)
  have "kept_max (insert a S) (addMessage i a mp)"
    using Cons.prems by (rule addMessage_max)
  then have "kept_max (insert a S \<union> set ms) (removeDuplicates (Suc i) ms (addMessage i a mp))"
    by (rule Cons.IH)
  then show ?case by simp
qed

lemma truthy_id: "truthy (str_val (msg_id m)) \<Longrightarrow> msg_id m = Some (the (msg_id m))"
  by (cases "msg_id m") (auto simp: str_val_def)

lemma key_of_KeyId:
  "key_of j m = KeyId x \<Longrightarrow> truthy (str_val (msg_id m)) \<and> msg_id m = Some x"
  by (auto simp: key_of_def dest: truthy_id split: if_splits)

lemma out_set:
  "set (mobile_subscribeMessages now messages) = snd ` set (messageMap_of now messages)"
  by (simp add: mobile_subscribeMessages_def messageMap_of_def Let_def set_js_sort)

lemma out_mset:
  "mset (mobile_subscribeMessages now messages) = mset (map snd (messageMap_of now messages))"
  by (simp add: mobile_subscribeMessages_def messageMap_of_def Let_def mset_js_sort)

lemma map_distinct: "distinct (map fst (messageMap_of now messages))"
  unfolding messageMap_of_def by (rule removeDuplicates_distinct) simp

lemma map_keys: "(k, m) \<in> set (messageMap_of now messages) \<Longrightarrow> \<exists>j. k = key_of j m"
  using removeDuplicates_keys [of "[]" 0 "filter (validMessage now) messages"]
  unfolding messageMap_of_def by auto

lemma map_valid:
  "(k, m) \<in> set (messageMap_of now messages) \<Longrightarrow> m \<in> set messages \<and> validMessage now m"
  using removeDuplicates_subset [of k m 0 "filter (validMessage now) messages" "[]"]
  unfolding messageMap_of_def by auto

lemma map_max: "kept_max {m \<in> set messages. validMessage now m} (messageMap_of now messages)"
proof -
  have "kept_max {} []" by (simp add: kept_max_def)
  from removeDuplicates_max [OF this, of "filter (validMessage now) messages" 0]
  show ?thesis by (simp add: messageMap_of_def)
qed

lemma delivered_valid:
  "m \<in> set (mobile_subscribeMessages now messages) \<Longrightarrow> m \<in> set messages \<and> validMessage now m"
  using map_valid by (fastforce simp: out_set)

lemma delivered_greatest:
  assumes m: "m \<in> set (mobile_subscribeMessages now messages)"
      and idm: "truthy (str_val (msg_id m))"
      and m': "m' \<in> set messages" "validMessage now m'" "msg_id m' = msg_id m"
  shows "millisOrZero (msg_timestamp m') \<le> millisOrZero (msg_timestamp m)"
proof -
  obtain k where km: "(k, m) \<in> set (messageMap_of now messages)"
    using m by (auto simp: out_set)
  then obtain j where "k = key_of j m" using map_keys by blast
  then have k: "k = KeyId (the (msg_id m))" using idm by (simp add: key_of_def)
  have stored: "map_of (messageMap_of now messages) (KeyId (the (msg_id m))) = Some m"
    using km k map_distinct by (simp add: map_of_is_SomeI)
  have "truthy (str_val (msg_id m'))" using idm m'(3) by simp
  with map_max m'(1,2) obtain m'' where
    "map_of (messageMap_of now messages) (KeyId (the (msg_id m'))) = Some m''"
    "millisOrZero (msg_timestamp m') \<le> millisOrZero (msg_timestamp m'')"
    unfolding kept_max_def by blast
  with stored m'(3) show ?thesis by simp
qed

lemma delivered_some:
  assumes m': "m' \<in> set messages" "validMessage now m'" "truthy (str_val (msg_id m'))"
  shows "\<exists>m \<in> set (mobile_subscribeMessages now messages). msg_id m = msg_id m'"
proof -
  from map_max m' obtain m where
    st: "map_of (messageMap_of now messages) (KeyId (the (msg_id m'))) = Some m"
    unfolding kept_max_def by blast
  then have mem: "(KeyId (the (msg_id m')), m) \<in> set (messageMap_of now messages)"
    by (rule map_of_SomeD)
  then obtain j where "KeyId (the (msg_id m')) = key_of j m" using map_keys by blast
  then have "msg_id m = Some (the (msg_id m'))" using key_of_KeyId [of j m] by simp
  then have "msg_id m = msg_id m'" using truthy_id [OF m'(3)] by simp
  moreover have "m \<in> set (mobile_subscribeMessages now messages)"
    using mem by (force simp: out_set)
  ultimately show ?thesis by blast
qed

lemma delivered_distinct:
  "distinct (map msg_id (filter (\<lambda>m. truthy (str_val (msg_id m)))
                          (mobile_subscribeMessages now messages)))"
proof -
  let ?R = "messageMap_of now messages"
  let ?h = "\<lambda>m. truthy (str_val (msg_id m))"
  let ?R' = "filter (\<lambda>p. ?h (snd p)) ?R"
  have d: "distinct (map fst ?R')" using map_distinct by (rule distinct_map_filter)
  have "map fst ?R' = map (\<lambda>p. KeyId (the (msg_id (snd p)))) ?R'"
  proof (rule map_cong [OF refl])
    fix p assume "p \<in> set ?R'"
    then have p: "(fst p, snd p) \<in> set ?R" "?h (snd p)" by auto
    then obtain j where "fst p = key_of j (snd p)" using map_keys by blast
    then show "fst p = KeyId (the (msg_id (snd p)))" using p(2) by (simp add: key_of_def)
  qed
  with d have "distinct (map (\<lambda>p. KeyId (the (msg_id (snd p)))) ?R')" by simp
  then have "distinct (map (\<lambda>p. msg_id (snd p)) ?R')"
    by (auto simp: distinct_map inj_on_def)
  then have base: "distinct (map msg_id (filter ?h (map snd ?R)))"
    by (simp add: filter_map comp_def)
  have "mset (map msg_id (filter ?h (mobile_subscribeMessages now messages)))
      = mset (map msg_id (filter ?h (map snd ?R)))"
    using out_mset [of now messages]
    by (metis mset_filter mset_map)
  then show ?thesis using base by (metis mset_eq_imp_distinct_iff)
qed

lemma validMessage_stamp:
  "validMessage now m \<Longrightarrow>
     \<exists>s n. msg_timestamp m = TsStamp s n \<and> 0 < toMillis s n
          \<and> toMillis s n < MAX_SAFE_INTEGER \<and> toMillis s n \<le> now + 3600000"
  by (cases "msg_timestamp m") (auto simp: validMessage_def Let_def split: if_splits)

lemma sortedMessages_mset:
  "mset (sortedMessages localeCompare messages)
     = mset (filter (\<lambda>m. isValidTimestamp (msg_timestamp m)) messages)"
proof (cases "filter (\<lambda>m. isValidTimestamp (msg_timestamp m)) messages = []")
  case True
  then show ?thesis by (simp add: sortedMessages_def)
next
  case False
  then have "messages \<noteq> []" by auto
  then show ?thesis using False by (simp add: sortedMessages_def mset_js_sort)
qed

lemma dashboard_mset:
  "mset (dashboard_messages localeCompare snapshot)
     = mset (filter (\<lambda>m. isValidTimestamp (msg_timestamp m)) snapshot)"
  by (simp add: dashboard_messages_def sortedMessages_mset subscribeMessages_def mset_js_sort)

subsection \<open>C8: the messages passed on for display\<close>

text \<open>
  C8, as the code has it. For every snapshot, the list displayed by either app holds
  only messages of the snapshot whose timestamp is resolved. The mobile subscription
  also removes duplicates: among the displayed messages that have an id no two share
  it, each one is at least as recent as every valid delivery with the same id, and
  every valid delivery with an id is represented. The dashboard displays every
  delivery with a valid timestamp, as many times as the snapshot holds it.
\<close>

theorem C8_displayed_messages:
  "(\<forall>m \<in> set (mobile_subscribeMessages now messages).
       m \<in> set messages \<and> hasToMillis (msg_timestamp m))
   \<and> distinct (map msg_id (filter (\<lambda>m. truthy (str_val (msg_id m)))
                              (mobile_subscribeMessages now messages)))
   \<and> (\<forall>m \<in> set (mobile_subscribeMessages now messages).
        \<forall>m' \<in> set messages.
          truthy (str_val (msg_id m)) \<and> msg_id m' = msg_id m \<and> validMessage now m'
          \<longrightarrow> millisOrZero (msg_timestamp m') \<le> millisOrZero (msg_timestamp m))
   \<and> (\<forall>m' \<in> set messages.
        validMessage now m' \<and> truthy (str_val (msg_id m'))
        \<longrightarrow> (\<exists>m \<in> set (mobile_subscribeMessages now messages). msg_id m = msg_id m'))
   \<and> (\<forall>m \<in> set (dashboard_messages localeCompare snapshot).
        m \<in> set snapshot \<and> msg_timestamp m \<noteq> TsNone \<and> msg_timestamp m \<noteq> TsOther)
   \<and> mset (dashboard_messages localeCompare snapshot)
       = mset (filter (\<lambda>m. isValidTimestamp (msg_timestamp m)) snapshot)"
proof -
  have a: "\<forall>m \<in> set (mobile_subscribeMessages now messages).
       m \<in> set messages \<and> hasToMillis (msg_timestamp m)"
  proof
    fix m assume "m \<in> set (mobile_subscribeMessages now messages)"
    then have "m \<in> set messages" "validMessage now m" using delivered_valid by blast+
    then show "m \<in> set messages \<and> hasToMillis (msg_timestamp m)"
      using validMessage_stamp [of now m] by (auto simp: hasToMillis_def)
  qed
  have b: "distinct (map msg_id (filter (\<lambda>m. truthy (str_val (msg_id m)))
                              (mobile_subscribeMessages now messages)))"
    by (rule delivered_distinct)
  have c: "\<forall>m \<in> set (mobile_subscribeMessages now messages).
        \<forall>m' \<in> set messages.
          truthy (str_val (msg_id m)) \<and> msg_id m' = msg_id m \<and> validMessage now m'
          \<longrightarrow> millisOrZero (msg_timestamp m') \<le> millisOrZero (msg_timestamp m)"
    using delivered_greatest by blast
  have d: "\<forall>m' \<in> set messages.
        validMessage now m' \<and> truthy (str_val (msg_id m'))
        \<longrightarrow> (\<exists>m \<in> set (mobile_subscribeMessages now messages). msg_id m = msg_id m')"
    using delivered_some by blast
  have f: "mset (dashboard_messages localeCompare snapshot)
       = mset (filter (\<lambda>m. isValidTimestamp (msg_timestamp m)) snapshot)"
    by (rule dashboard_mset)
  have e: "\<forall>m \<in> set (dashboard_messages localeCompare snapshot).
        m \<in> set snapshot \<and> msg_timestamp m \<noteq> TsNone \<and> msg_timestamp m \<noteq> TsOther"
  proof
    fix m assume "m \<in> set (dashboard_messages localeCompare snapshot)"
    then have "m \<in> set (filter (\<lambda>m. isValidTimestamp (msg_timestamp m)) snapshot)"
      using f by (metis set_mset_mset)
    then show "m \<in> set snapshot \<and> msg_timestamp m \<noteq> TsNone \<and> msg_timestamp m \<noteq> TsOther"
      by (auto simp: isValidTimestamp_def)
  qed
  from a b c d e f show ?thesis by blast
qed

text \<open>
  The theorem on a snapshot that delivers \<open>m1\<close> twice, \<open>m2\<close> with a pending
  timestamp and \<open>m3\<close>, at a clock of 1000 s.
\<close>

theorem C8_displayed_messages_witness:
  "mobile_subscribeMessages 1000000
     [sampleMessage ''m1'' (TsStamp 100 0), sampleMessage ''m2'' TsNone,
      sampleMessage ''m1'' (TsStamp 200 0), sampleMessage ''m3'' (TsStamp 150 0)]
   = [sampleMessage ''m3'' (TsStamp 150 0), sampleMessage ''m1'' (TsStamp 200 0)]
   \<and> distinct (map msg_id (filter (\<lambda>m. truthy (str_val (msg_id m)))
        (mobile_subscribeMessages 1000000
          [sampleMessage ''m1'' (TsStamp 100 0), sampleMessage ''m2'' TsNone,
           sampleMessage ''m1'' (TsStamp 200 0), sampleMessage ''m3'' (TsStamp 150 0)])))
   \<and> dashboard_messages (\<lambda>a b. 0)
        [sampleMessage ''m1'' (TsStamp 100 0), sampleMessage ''m2'' TsNone,
         sampleMessage ''m3'' (TsStamp 150 0)]
      = [sampleMessage ''m1'' (TsStamp 100 0), sampleMessage ''m3'' (TsStamp 150 0)]"
proof -
  let ?ms = "[sampleMessage ''m1'' (TsStamp 100 0), sampleMessage ''m2'' TsNone,
      sampleMessage ''m1'' (TsStamp 200 0), sampleMessage ''m3'' (TsStamp 150 0)]"
  let ?snap = "[sampleMessage ''m1'' (TsStamp 100 0), sampleMessage ''m2'' TsNone,
         sampleMessage ''m3'' (TsStamp 150 0)]"
  have out: "mobile_subscribeMessages 1000000 ?ms
      = [sampleMessage ''m3'' (TsStamp 150 0), sampleMessage ''m1'' (TsStamp 200 0)]"
    by (simp add: mobile_subscribeMessages_def validMessage_def toMillis_def
        MAX_SAFE_INTEGER_def sampleMessage_def addMessage_def str_val_def millisOrZero_def
        js_sort_def Let_def)
  have dash: "dashboard_messages (\<lambda>a b. 0) ?snap
      = [sampleMessage ''m1'' (TsStamp 100 0), sampleMessage ''m3'' (TsStamp 150 0)]"
    by (simp add: dashboard_messages_def subscribeMessages_def sortedMessages_def
        isValidTimestamp_def getTimestampMs_def snapshotTime_def toMillis_def
        sampleMessage_def js_sort_def Let_def)
  from C8_displayed_messages [of 1000000 ?ms "\<lambda>a b. 0" ?snap]
  have "distinct (map msg_id (filter (\<lambda>m. truthy (str_val (msg_id m)))
        (mobile_subscribeMessages 1000000 ?ms)))"
    by blast
  with out dash show ?thesis by simp
qed

text \<open>
  C8 as stated fails on the dashboard: two deliveries of the message \<open>m1\<close> are both
  displayed.
\<close>

theorem C8_counterexample:
  "dashboard_messages (\<lambda>a b. 0)
     [sampleMessage ''m1'' (TsStamp 100 0), sampleMessage ''m1'' (TsStamp 200 0)]
   = [sampleMessage ''m1'' (TsStamp 100 0), sampleMessage ''m1'' (TsStamp 200 0)]
   \<and> msg_id (sampleMessage ''m1'' (TsStamp 100 0)) = msg_id (sampleMessage ''m1'' (TsStamp 200 0))"
  by (simp add: dashboard_messages_def subscribeMessages_def sortedMessages_def
      isValidTimestamp_def getTimestampMs_def snapshotTime_def toMillis_def
      sampleMessage_def js_sort_def Let_def)

subsection \<open>C10: messages from the future\<close>

text \<open>
  C10. Every message that the mobile subscription delivers has a Firestore timestamp
  whose millisecond value is positive, below \<open>Number.MAX_SAFE_INTEGER\<close> and at most
  one hour ahead of \<open>Date.now()\<close>. A message whose resolved timestamp lies more than
  one hour ahead is not delivered, no more than a message whose timestamp has no
  \<open>toMillis\<close>; a message with an id whose timestamp meets the three bounds is
  represented in the result.
\<close>

theorem C10_future_messages_dropped:
  "(\<forall>m \<in> set (mobile_subscribeMessages now messages).
       \<exists>s n. msg_timestamp m = TsStamp s n \<and> 0 < toMillis s n
            \<and> toMillis s n < MAX_SAFE_INTEGER \<and> toMillis s n \<le> now + 60 * 60 * 1000)
   \<and> (\<forall>m \<in> set messages. \<forall>s n.
        msg_timestamp m = TsStamp s n \<and> now + 60 * 60 * 1000 < toMillis s n
        \<longrightarrow> m \<notin> set (mobile_subscribeMessages now messages))
   \<and> (\<forall>m \<in> set messages.
        \<not> hasToMillis (msg_timestamp m) \<longrightarrow> m \<notin> set (mobile_subscribeMessages now messages))
   \<and> (\<forall>m \<in> set messages. \<forall>s n.
        msg_timestamp m = TsStamp s n \<and> 0 < toMillis s n \<and> toMillis s n < MAX_SAFE_INTEGER
        \<and> toMillis s n \<le> now + 60 * 60 * 1000 \<and> truthy (str_val (msg_id m))
        \<longrightarrow> (\<exists>m' \<in> set (mobile_subscribeMessages now messages). msg_id m' = msg_id m))"
proof -
  have a: "\<forall>m \<in> set (mobile_subscribeMessages now messages).
       \<exists>s n. msg_timestamp m = TsStamp s n \<and> 0 < toMillis s n
            \<and> toMillis s n < MAX_SAFE_INTEGER \<and> toMillis s n \<le> now + 60 * 60 * 1000"
  proof
    fix m assume "m \<in> set (mobile_subscribeMessages now messages)"
    then have "validMessage now m" using delivered_valid by blast
    then show "\<exists>s n. msg_timestamp m = TsStamp s n \<and> 0 < toMillis s n
            \<and> toMillis s n < MAX_SAFE_INTEGER \<and> toMillis s n \<le> now + 60 * 60 * 1000"
      using validMessage_stamp [of now m] by simp
  qed
  have b: "\<forall>m \<in> set messages. \<forall>s n.
        msg_timestamp m = TsStamp s n \<and> now + 60 * 60 * 1000 < toMillis s n
        \<longrightarrow> m \<notin> set (mobile_subscribeMessages now messages)"
    using a by fastforce
  have c: "\<forall>m \<in> set messages.
        \<not> hasToMillis (msg_timestamp m) \<longrightarrow> m \<notin> set (mobile_subscribeMessages now messages)"
    using a by (fastforce simp: hasToMillis_def)
  have d: "\<forall>m \<in> set messages. \<forall>s n.
        msg_timestamp m = TsStamp s n \<and> 0 < toMillis s n \<and> toMillis s n < MAX_SAFE_INTEGER
        \<and> toMillis s n \<le> now + 60 * 60 * 1000 \<and> truthy (str_val (msg_id m))
        \<longrightarrow> (\<exists>m' \<in> set (mobile_subscribeMessages now messages). msg_id m' = msg_id m)"
  proof (intro ballI allI impI)
    fix m s n
    assume m: "m \<in> set messages"
      and h: "msg_timestamp m = TsStamp s n \<and> 0 < toMillis s n \<and> toMillis s n < MAX_SAFE_INTEGER
        \<and> toMillis s n \<le> now + 60 * 60 * 1000 \<and> truthy (str_val (msg_id m))"
    then have "validMessage now m" by (simp add: validMessage_def Let_def)
    with m h show "\<exists>m' \<in> set (mobile_subscribeMessages now messages). msg_id m' = msg_id m"
      using delivered_some by blast
  qed
  from a b c d show ?thesis by blast
qed

text \<open>
  The theorem at a clock of 1000 s, for a message stamped 5000 s, one stamped 100 s
  and a pending one.
\<close>

theorem C10_future_messages_dropped_witness:
  "mobile_subscribeMessages 1000000
     [sampleMessage ''late'' (TsStamp 5000 0), sampleMessage ''ok'' (TsStamp 100 0),
      sampleMessage ''pending'' TsNone]
   = [sampleMessage ''ok'' (TsStamp 100 0)]
   \<and> (1000000::rat) + 60 * 60 * 1000 < toMillis 5000 0
   \<and> sampleMessage ''late'' (TsStamp 5000 0) \<notin> set (mobile_subscribeMessages 1000000
       [sampleMessage ''late'' (TsStamp 5000 0), sampleMessage ''ok'' (TsStamp 100 0),
        sampleMessage ''pending'' TsNone])"
proof -
  let ?ms = "[sampleMessage ''late'' (TsStamp 5000 0), sampleMessage ''ok'' (TsStamp 100 0),
      sampleMessage ''pending'' TsNone]"
  have out: "mobile_subscribeMessages 1000000 ?ms = [sampleMessage ''ok'' (TsStamp 100 0)]"
    by (simp add: mobile_subscribeMessages_def validMessage_def toMillis_def
        MAX_SAFE_INTEGER_def sampleMessage_def addMessage_def str_val_def millisOrZero_def
        js_sort_def Let_def)
  have late: "(1000000::rat) + 60 * 60 * 1000 < toMillis 5000 0" by (simp add: toMillis_def)
  have ts: "msg_timestamp (sampleMessage ''late'' (TsStamp 5000 0)) = TsStamp 5000 0"
    by (simp add: sampleMessage_def)
  have mem: "sampleMessage ''late'' (TsStamp 5000 0) \<in> set ?ms" by simp
  from C10_future_messages_dropped [of 1000000 ?ms] mem ts late
  have "sampleMessage ''late'' (TsStamp 5000 0) \<notin> set (mobile_subscribeMessages 1000000 ?ms)"
    by blast
  with out late show ?thesis by simp
qed

end
